theory Spec2Isabelle
  imports Complex_Main "HOL-Library.AList"
begin

section \<open>Paths and file types (utils.py, pathlib)\<close>

text \<open>
  A \<^verbatim>\<open>pathlib.Path\<close> is modelled by its tuple of parts. The string of a relative
  path determines its parts and conversely, so the dictionaries of the program
  that are keyed by \<^verbatim>\<open>str(rel_path)\<close> are keyed by the parts here.
  Timestamps (\<^verbatim>\<open>datetime\<close> values, \<^verbatim>\<open>time.time()\<close>) and durations in seconds are
  exact reals.
\<close>

type_synonym path = "string list"

definition name :: "path \<Rightarrow> string" where
  "name p = (if p = [] then [] else last p)"

definition parent :: "path \<Rightarrow> path" where
  "parent p = butlast p"

text \<open>\<^verbatim>\<open>str.rfind('.')\<close>; \<open>None\<close> stands for \<^verbatim>\<open>-1\<close>.\<close>

definition rfind_dot :: "string \<Rightarrow> nat option" where
  "rfind_dot s =
     (if CHR ''.'' \<in> set s
      then Some (length s - 1 - length (takeWhile (\<lambda>c. c \<noteq> CHR ''.'') (rev s)))
      else None)"

text \<open>\<^verbatim>\<open>PurePath.stem\<close>: the name without its last suffix; a leading or a trailing
  dot does not start a suffix.\<close>

definition stem :: "path \<Rightarrow> string" where
  "stem p =
     (case rfind_dot (name p) of
        None \<Rightarrow> name p
      | Some i \<Rightarrow> if 0 < i \<and> i < length (name p) - 1 then take i (name p) else name p)"

text \<open>\<^verbatim>\<open>os.path.splitext(p)[1]\<close>: the text from the last dot of the last component,
  unless only dots precede it.\<close>

definition splitext_ext :: "path \<Rightarrow> string" where
  "splitext_ext p =
     (case rfind_dot (name p) of
        None \<Rightarrow> []
      | Some i \<Rightarrow> if list_ex (\<lambda>c. c \<noteq> CHR ''.'') (take i (name p)) then drop i (name p) else [])"

definition lower_char :: "char \<Rightarrow> char" where
  "lower_char c =
     (case map_of (zip ''ABCDEFGHIJKLMNOPQRSTUVWXYZ'' ''abcdefghijklmnopqrstuvwxyz'') c of
        None \<Rightarrow> c
      | Some l \<Rightarrow> l)"

definition lower :: "string \<Rightarrow> string" where
  "lower s = map lower_char s"

definition get_file_extension :: "path \<Rightarrow> string" where
  "get_file_extension file_path = lower (tl (splitext_ext file_path))"

definition is_markdown_file :: "path \<Rightarrow> bool" where
  "is_markdown_file file_path = (get_file_extension file_path = ''md'')"

definition is_notebook_file :: "path \<Rightarrow> bool" where
  "is_notebook_file file_path = (get_file_extension file_path = ''ipynb'')"

datatype exn =
    TypeError
  | ValueError
  | FileNotFoundError
  | FileExistsError
  | NotADirectoryError
  | IsADirectoryError
  | AttributeError
  | ConversionError

text \<open>\<^verbatim>\<open>PurePath.relative_to\<close> raises \<^verbatim>\<open>ValueError\<close> unless the base is a prefix.\<close>

definition relative_to :: "path \<Rightarrow> path \<Rightarrow> exn + path" where
  "relative_to p base =
     (if take (length base) p = base then Inr (drop (length base) p) else Inl ValueError)"

text \<open>\<^verbatim>\<open>Path(rel_path).parent / (Path(rel_path).stem + ext)\<close>, which is also
  \<^verbatim>\<open>Path(rel_path).with_suffix(ext)\<close> for a non-empty name.\<close>

definition swap_suffix :: "path \<Rightarrow> string \<Rightarrow> path" where
  "swap_suffix rel ext = parent rel @ [stem rel @ ext]"

section \<open>Configuration (config_manager.py)\<close>

text \<open>The keys of the configuration dictionary that the modelled code reads.
  \<open>time_threshold\<close> is absent from the default configuration, hence optional; each
  reader supplies its own default.\<close>

record config =
  md_dir :: path
  ipynb_dir :: path
  ignore_patterns :: "string list"
  conflict_resolution :: string
  time_threshold :: "real option"
  delete_orphaned :: bool
  debounce_delay :: real
  sync_on_start :: bool

definition get_time_threshold :: "config \<Rightarrow> real \<Rightarrow> real" where
  "get_time_threshold cfg dflt = (case time_threshold cfg of None \<Rightarrow> dflt | Some t \<Rightarrow> t)"

section \<open>Reconciliation (consistency_checker.py)\<close>

text \<open>One value of the dictionary returned by \<^verbatim>\<open>scan_directory\<close>. The modification
  time is \<open>None\<close> when the file had vanished before it could be examined.\<close>

record file_info =
  f_path :: path
  f_rel_path :: path
  f_mtime :: "real option"
  f_size :: nat
  f_extension :: string

type_synonym snapshot = "(path \<times> file_info) list"

text \<open>One entry of a propagation list; \<open>time_diff = None\<close> is \<^verbatim>\<open>float('inf')\<close>.\<close>

record action =
  source :: path
  target :: path
  a_rel_path :: path
  time_diff :: "real option"

record sync_actions =
  md_to_ipynb :: "action list"
  ipynb_to_md :: "action list"
  conflict :: "action list"
  orphaned_md :: "path list"
  orphaned_ipynb :: "path list"

definition get_corresponding_path :: "path \<Rightarrow> path \<Rightarrow> path \<Rightarrow> string \<Rightarrow> exn + path" where
  "get_corresponding_path p source_dir target_dir target_ext =
     (case relative_to p source_dir of
        Inl e \<Rightarrow> Inl e
      | Inr rel \<Rightarrow> Inr (target_dir @ parent rel @ [stem rel @ target_ext]))"

text \<open>A \<^verbatim>\<open>for\<close> loop over a list whose body may raise: the first exception ends it.\<close>

fun for_each :: "('a \<Rightarrow> 's \<Rightarrow> exn + 's) \<Rightarrow> 'a list \<Rightarrow> 's \<Rightarrow> exn + 's" where
  "for_each body [] s = Inr s"
| "for_each body (x # xs) s =
     (case body x s of Inl e \<Rightarrow> Inl e | Inr s' \<Rightarrow> for_each body xs s')"

text \<open>The body of the first loop of \<^verbatim>\<open>check_consistency\<close>: one Markdown file against
  its notebook. Subtracting a missing modification time raises \<^verbatim>\<open>TypeError\<close>.\<close>

definition check_md_file ::
    "config \<Rightarrow> snapshot \<Rightarrow> path \<times> file_info \<Rightarrow> sync_actions \<Rightarrow> exn + sync_actions" where
  "check_md_file cfg ipynb_files entry acts =
     (let rel = fst entry; md_info = snd entry in
      if \<not> is_markdown_file (f_path md_info) then Inr acts
      else
        let rel_ipynb_path = swap_suffix rel ''.ipynb'' in
        case map_of ipynb_files rel_ipynb_path of
          Some ipynb_info \<Rightarrow>
            (case f_mtime md_info of
               None \<Rightarrow> Inl TypeError
             | Some md_mtime \<Rightarrow>
                (case f_mtime ipynb_info of
                   None \<Rightarrow> Inl TypeError
                 | Some ipynb_mtime \<Rightarrow>
                     let td = \<bar>md_mtime - ipynb_mtime\<bar> in
                     if td < get_time_threshold cfg 5 then Inr acts
                     else if md_mtime > ipynb_mtime \<or> conflict_resolution cfg = ''md'' then
                       Inr (acts\<lparr>md_to_ipynb := md_to_ipynb acts @
                              [\<lparr>source = f_path md_info, target = f_path ipynb_info,
                                a_rel_path = rel, time_diff = Some td\<rparr>]\<rparr>)
                     else if md_mtime < ipynb_mtime \<or> conflict_resolution cfg = ''ipynb'' then
                       Inr (acts\<lparr>ipynb_to_md := ipynb_to_md acts @
                              [\<lparr>source = f_path ipynb_info, target = f_path md_info,
                                a_rel_path = rel_ipynb_path, time_diff = Some td\<rparr>]\<rparr>)
                     else Inr acts))
        | None \<Rightarrow>
            (case get_corresponding_path (f_path md_info) (md_dir cfg) (ipynb_dir cfg) ''.ipynb'' of
               Inl e \<Rightarrow> Inl e
             | Inr ipynb_path \<Rightarrow>
                 Inr (acts\<lparr>md_to_ipynb := md_to_ipynb acts @
                        [\<lparr>source = f_path md_info, target = ipynb_path,
                          a_rel_path = rel, time_diff = None\<rparr>]\<rparr>)))"

text \<open>The body of the second loop: a notebook whose Markdown file is missing.\<close>

definition check_ipynb_file ::
    "config \<Rightarrow> snapshot \<Rightarrow> path \<times> file_info \<Rightarrow> sync_actions \<Rightarrow> exn + sync_actions" where
  "check_ipynb_file cfg md_files entry acts =
     (let rel = fst entry; ipynb_info = snd entry in
      if \<not> is_notebook_file (f_path ipynb_info) then Inr acts
      else
        let rel_md_path = swap_suffix rel ''.md'' in
        if map_of md_files rel_md_path = None then
          (case get_corresponding_path (f_path ipynb_info) (ipynb_dir cfg) (md_dir cfg) ''.md'' of
             Inl e \<Rightarrow> Inl e
           | Inr md_path \<Rightarrow>
               Inr (acts\<lparr>ipynb_to_md := ipynb_to_md acts @
                      [\<lparr>source = f_path ipynb_info, target = md_path,
                        a_rel_path = rel, time_diff = None\<rparr>]\<rparr>))
        else Inr acts)"

text \<open>The bodies of the two orphan passes, run only when \<^verbatim>\<open>delete_orphaned\<close> is set.\<close>

definition mark_orphaned_md ::
    "snapshot \<Rightarrow> path \<times> file_info \<Rightarrow> sync_actions \<Rightarrow> sync_actions" where
  "mark_orphaned_md ipynb_files entry acts =
     (let rel = fst entry; md_info = snd entry in
      if \<not> is_markdown_file (f_path md_info) then acts
      else
        let rel_ipynb_path = swap_suffix rel ''.ipynb'' in
        if map_of ipynb_files rel_ipynb_path = None
           \<and> \<not> list_ex (\<lambda>a. a_rel_path a = rel) (md_to_ipynb acts)
        then acts\<lparr>orphaned_md := orphaned_md acts @ [f_path md_info]\<rparr>
        else acts)"

definition mark_orphaned_ipynb ::
    "snapshot \<Rightarrow> path \<times> file_info \<Rightarrow> sync_actions \<Rightarrow> sync_actions" where
  "mark_orphaned_ipynb md_files entry acts =
     (let rel = fst entry; ipynb_info = snd entry in
      if \<not> is_notebook_file (f_path ipynb_info) then acts
      else
        let rel_md_path = swap_suffix rel ''.md'' in
        if map_of md_files rel_md_path = None
           \<and> \<not> list_ex (\<lambda>a. a_rel_path a = rel) (ipynb_to_md acts)
        then acts\<lparr>orphaned_ipynb := orphaned_ipynb acts @ [f_path ipynb_info]\<rparr>
        else acts)"

definition no_actions :: sync_actions where
  "no_actions = \<lparr>md_to_ipynb = [], ipynb_to_md = [], conflict = [],
                 orphaned_md = [], orphaned_ipynb = []\<rparr>"

text \<open>\<^verbatim>\<open>check_consistency\<close> after its two scans: the plan for two snapshots.\<close>

definition reconcile :: "config \<Rightarrow> snapshot \<Rightarrow> snapshot \<Rightarrow> exn + sync_actions" where
  "reconcile cfg md_files ipynb_files =
     (case for_each (check_md_file cfg ipynb_files) md_files no_actions of
        Inl e \<Rightarrow> Inl e
      | Inr a1 \<Rightarrow>
          (case for_each (check_ipynb_file cfg md_files) ipynb_files a1 of
             Inl e \<Rightarrow> Inl e
           | Inr a2 \<Rightarrow>
               if delete_orphaned cfg
               then Inr (fold (mark_orphaned_ipynb md_files) ipynb_files
                           (fold (mark_orphaned_md ipynb_files) md_files a2))
               else Inr a2))"

section \<open>The file system and the logger\<close>

text \<open>
  The file system is a tree: a regular file with its text and its two timestamps, or
  a directory with what \<^verbatim>\<open>stat\<close> reports for it and its entries in listing order.
  Paths are absolute, from the root of the tree. Symbolic links, permissions and
  encodings are not part of the model; the tree does not change while one call of the
  program runs, and the times that the kernel itself updates (a file's access time when
  it is read, a directory's times when its entries change) are left as they are.
\<close>

record file_data =
  content :: string
  atime :: real
  mtime :: real

record stat_result =
  st_size :: nat
  st_atime :: real
  st_mtime :: real

datatype node = File file_data | Dir stat_result "(string \<times> node) list"

definition stat_of :: "node \<Rightarrow> stat_result" where
  "stat_of n =
     (case n of
        File d \<Rightarrow> \<lparr>st_size = length (content d), st_atime = atime d, st_mtime = mtime d\<rparr>
      | Dir st es \<Rightarrow> st)"

text \<open>Looking a path without \<^verbatim>\<open>..\<close> up, with the error of the system call.\<close>

fun resolve :: "node \<Rightarrow> path \<Rightarrow> exn + node" where
  "resolve n [] = Inr n"
| "resolve (File d) (c # cs) = Inl NotADirectoryError"
| "resolve (Dir st es) (c # cs) =
     (case map_of es c of None \<Rightarrow> Inl FileNotFoundError | Some n \<Rightarrow> resolve n cs)"

text \<open>A component \<^verbatim>\<open>..\<close> steps out of the directory before it; the directories that a
  path of the program steps out of are its own roots, which exist.\<close>

definition normpath :: "path \<Rightarrow> path" where
  "normpath p = foldl (\<lambda>acc c. if c = ''..'' then butlast acc else acc @ [c]) [] p"

definition lookup :: "node \<Rightarrow> path \<Rightarrow> node option" where
  "lookup fs p = (case resolve fs (normpath p) of Inl e \<Rightarrow> None | Inr n \<Rightarrow> Some n)"

text \<open>\<^verbatim>\<open>Path.exists\<close>, \<^verbatim>\<open>os.path.exists\<close>.\<close>

definition exists :: "node \<Rightarrow> path \<Rightarrow> bool" where
  "exists fs p = (lookup fs p \<noteq> None)"

definition os_stat :: "node \<Rightarrow> path \<Rightarrow> exn + stat_result" where
  "os_stat fs p = (case resolve fs (normpath p) of Inl e \<Rightarrow> Inl e | Inr n \<Rightarrow> Inr (stat_of n))"

text \<open>\<^verbatim>\<open>open(p, 'r').read()\<close>.\<close>

definition read_text :: "node \<Rightarrow> path \<Rightarrow> exn + string" where
  "read_text fs p =
     (case resolve fs (normpath p) of
        Inl e \<Rightarrow> Inl e
      | Inr (File d) \<Rightarrow> Inr (content d)
      | Inr (Dir st es) \<Rightarrow> Inl IsADirectoryError)"

text \<open>\<^verbatim>\<open>open(p, 'w').write(s)\<close>: the file is created in an existing directory, or
  truncated and rewritten; its modification time becomes the current time.\<close>

fun write_at :: "node \<Rightarrow> path \<Rightarrow> string \<Rightarrow> real \<Rightarrow> exn + node" where
  "write_at (File d) [] s now = Inr (File (d\<lparr>content := s, mtime := now\<rparr>))"
| "write_at (Dir st es) [] s now = Inl IsADirectoryError"
| "write_at (File d) (c # cs) s now = Inl NotADirectoryError"
| "write_at (Dir st es) (c # cs) s now =
     (case map_of es c of
        None \<Rightarrow>
          if cs = [] then Inr (Dir st (es @ [(c, File \<lparr>content = s, atime = now, mtime = now\<rparr>)]))
          else Inl FileNotFoundError
      | Some n \<Rightarrow>
          (case write_at n cs s now of
             Inl e \<Rightarrow> Inl e
           | Inr n' \<Rightarrow> Inr (Dir st (AList.update c n' es))))"

definition write_text :: "node \<Rightarrow> path \<Rightarrow> string \<Rightarrow> real \<Rightarrow> exn + node" where
  "write_text fs p s now = write_at fs (normpath p) s now"

text \<open>\<^verbatim>\<open>os.utime(p, (a, m))\<close>.\<close>

fun utime_at :: "node \<Rightarrow> path \<Rightarrow> real \<Rightarrow> real \<Rightarrow> exn + node" where
  "utime_at (File d) [] a m = Inr (File (d\<lparr>atime := a, mtime := m\<rparr>))"
| "utime_at (Dir st es) [] a m = Inr (Dir (st\<lparr>st_atime := a, st_mtime := m\<rparr>) es)"
| "utime_at (File d) (c # cs) a m = Inl NotADirectoryError"
| "utime_at (Dir st es) (c # cs) a m =
     (case map_of es c of
        None \<Rightarrow> Inl FileNotFoundError
      | Some n \<Rightarrow>
          (case utime_at n cs a m of
             Inl e \<Rightarrow> Inl e
           | Inr n' \<Rightarrow> Inr (Dir st (AList.update c n' es))))"

definition os_utime :: "node \<Rightarrow> path \<Rightarrow> real \<Rightarrow> real \<Rightarrow> exn + node" where
  "os_utime fs p a m = utime_at fs (normpath p) a m"

text \<open>\<^verbatim>\<open>Path.unlink\<close>: removes a regular file.\<close>

fun unlink_at :: "node \<Rightarrow> path \<Rightarrow> exn + node" where
  "unlink_at n [] = Inl IsADirectoryError"
| "unlink_at (File d) (c # cs) = Inl NotADirectoryError"
| "unlink_at (Dir st es) (c # cs) =
     (case map_of es c of
        None \<Rightarrow> Inl FileNotFoundError
      | Some n \<Rightarrow>
          if cs = [] then
            (case n of
               File d \<Rightarrow> Inr (Dir st (AList.delete c es))
             | Dir st' es' \<Rightarrow> Inl IsADirectoryError)
          else
            (case unlink_at n cs of
               Inl e \<Rightarrow> Inl e
             | Inr n' \<Rightarrow> Inr (Dir st (AList.update c n' es))))"

definition os_unlink :: "node \<Rightarrow> path \<Rightarrow> exn + node" where
  "os_unlink fs p = unlink_at fs (normpath p)"

text \<open>\<^verbatim>\<open>os.makedirs(p, exist_ok=True)\<close>: creates the missing directories of the path.\<close>

fun makedirs_at :: "node \<Rightarrow> path \<Rightarrow> real \<Rightarrow> exn + node" where
  "makedirs_at (File d) [] now = Inl FileExistsError"
| "makedirs_at (Dir st es) [] now = Inr (Dir st es)"
| "makedirs_at (File d) (c # cs) now = Inl NotADirectoryError"
| "makedirs_at (Dir st es) (c # cs) now =
     (case map_of es c of
        None \<Rightarrow>
          (case makedirs_at (Dir \<lparr>st_size = 4096, st_atime = now, st_mtime = now\<rparr> []) cs now of
             Inl e \<Rightarrow> Inl e
           | Inr n' \<Rightarrow> Inr (Dir st (es @ [(c, n')])))
      | Some n \<Rightarrow>
          (case makedirs_at n cs now of
             Inl e \<Rightarrow> Inl e
           | Inr n' \<Rightarrow> Inr (Dir st (AList.update c n' es))))"

definition os_makedirs :: "node \<Rightarrow> path \<Rightarrow> real \<Rightarrow> exn + node" where
  "os_makedirs fs p now = makedirs_at fs (normpath p) now"

text \<open>The lines of the logger that the modelled code writes on its decision
  branches. Lines that only trace progress at debug level inside the helpers of
  \<^verbatim>\<open>utils.py\<close>, and the statistics lines of \<^verbatim>\<open>check_consistency\<close>, are not recorded.\<close>

datatype level = DEBUG | INFO | WARNING | ERROR

datatype message =
    DirectoryMissing path
  | DirectoryCreated path
  | SkipNotTargetType path
  | DeleteTarget path
  | TargetAlreadyGone path
  | DeleteFailed path exn
  | TargetRetained path
  | DeletionFailed path exn
  | SkipMissingFile path
  | SkipRecentlySynced path
  | SkipUnsupportedType path
  | SkipOutsideTree path
  | SyncFailed path exn
  | SyncStart path path
  | SkipPolicyPrefersTarget path
  | SkipTimestampsClose path path
  | SkipTargetNewer path
  | SyncDone path path
  | SyncConversionFailed path path exn
  | ConvertStart path path
  | NotebookEmpty path
  | NotebookInvalidJson path
  | WroteEmptyMarkdown path
  | WroteErrorMarkdown path
  | ConvertDone path
  | ConvertFailed path path exn
  | ProcessEvent path
  | InitialSyncDisabled
  | DeleteOrphan path

type_synonym log = "(level \<times> message) list"

section \<open>Scanning a tree (consistency_checker.py)\<close>

text \<open>\<^verbatim>\<open>fnmatch.fnmatch\<close> belongs to the standard library; the scan takes it as the
  parameter \<open>fnm\<close> (file name first, pattern second).\<close>

definition is_ignored :: "(string \<Rightarrow> string \<Rightarrow> bool) \<Rightarrow> config \<Rightarrow> path \<Rightarrow> bool" where
  "is_ignored fnm cfg p = list_ex (\<lambda>pattern. fnm (name p) pattern) (ignore_patterns cfg)"

definition files_of :: "(string \<times> node) list \<Rightarrow> (string \<times> file_data) list" where
  "files_of es =
     List.map_filter (\<lambda>e. case snd e of File d \<Rightarrow> Some (fst e, d) | Dir st es' \<Rightarrow> None) es"

text \<open>\<^verbatim>\<open>os.walk\<close>, top down, together with the pruning that the loop of
  \<^verbatim>\<open>scan_directory\<close> does in place on \<^verbatim>\<open>dirs\<close>: a directory for which \<open>ign\<close> holds is not
  entered. Each element is one iteration: the directory and the files in it. Walking
  something that is not a directory yields nothing.\<close>

fun walk :: "(path \<Rightarrow> string \<Rightarrow> bool) \<Rightarrow> path \<Rightarrow> node \<Rightarrow> (path \<times> (string \<times> file_data) list) list"
  and walk_dirs :: "(path \<Rightarrow> string \<Rightarrow> bool) \<Rightarrow> path \<Rightarrow> (string \<times> node) list \<Rightarrow> (path \<times> (string \<times> file_data) list) list" where
  "walk ign rt (File d) = []"
| "walk ign rt (Dir st es) = (rt, files_of es) # walk_dirs ign rt es"
| "walk_dirs ign rt [] = []"
| "walk_dirs ign rt (e # es) =
     (case snd e of
        File d \<Rightarrow> []
      | Dir st es' \<Rightarrow> if ign rt (fst e) then [] else walk ign (rt @ [fst e]) (snd e))
     @ walk_dirs ign rt es"

text \<open>\<^verbatim>\<open>PurePath.suffix\<close>.\<close>

definition suffix :: "path \<Rightarrow> string" where
  "suffix p =
     (case rfind_dot (name p) of
        None \<Rightarrow> []
      | Some i \<Rightarrow> if 0 < i \<and> i < length (name p) - 1 then drop i (name p) else [])"

text \<open>The body of the inner loop of \<^verbatim>\<open>scan_directory\<close>, for one listed file. The file
  was listed by the walk, so it exists and its \<^verbatim>\<open>stat\<close> is that of the listing.\<close>

definition scan_file ::
    "(string \<Rightarrow> string \<Rightarrow> bool) \<Rightarrow> config \<Rightarrow> path \<Rightarrow> path \<Rightarrow> string \<times> file_data \<Rightarrow> snapshot
       \<Rightarrow> exn + snapshot" where
  "scan_file fnm cfg base_dir rt entry files_info =
     (let file_path = rt @ [fst entry] in
      if is_ignored fnm cfg file_path then Inr files_info
      else
        case relative_to file_path base_dir of
          Inl e \<Rightarrow> Inl e
        | Inr rel \<Rightarrow>
            Inr (AList.update rel
                   \<lparr>f_path = file_path, f_rel_path = rel,
                    f_mtime = Some (mtime (snd entry)),
                    f_size = length (content (snd entry)),
                    f_extension = suffix file_path\<rparr>
                   files_info))"

definition scan_directory ::
    "(string \<Rightarrow> string \<Rightarrow> bool) \<Rightarrow> config \<Rightarrow> node \<Rightarrow> path \<Rightarrow> path option
       \<Rightarrow> (exn + snapshot) \<times> log" where
  "scan_directory fnm cfg fs directory base =
     (let base_dir = (case base of None \<Rightarrow> directory | Some b \<Rightarrow> b) in
      case lookup fs directory of
        None \<Rightarrow> (Inr [], [(WARNING, DirectoryMissing directory)])
      | Some n \<Rightarrow>
          (for_each (\<lambda>it. for_each (scan_file fnm cfg base_dir (fst it)) (snd it))
             (walk (\<lambda>rt d. is_ignored fnm cfg (rt @ [d])) directory n) [],
           []))"

text \<open>\<^verbatim>\<open>check_consistency\<close>: scan both trees, then build the plan.\<close>

definition check_consistency ::
    "(string \<Rightarrow> string \<Rightarrow> bool) \<Rightarrow> config \<Rightarrow> node \<Rightarrow> (exn + sync_actions) \<times> log" where
  "check_consistency fnm cfg fs =
     (case scan_directory fnm cfg fs (md_dir cfg) None of
        (Inl e, l1) \<Rightarrow> (Inl e, l1)
      | (Inr md_files, l1) \<Rightarrow>
          (case scan_directory fnm cfg fs (ipynb_dir cfg) None of
             (Inl e, l2) \<Rightarrow> (Inl e, l1 @ l2)
           | (Inr ipynb_files, l2) \<Rightarrow> (reconcile cfg md_files ipynb_files, l1 @ l2)))"

text \<open>What a scan guarantees about its result: one entry per relative path, every
  entry located under the scanned directory and examined.\<close>

definition scanned :: "path \<Rightarrow> snapshot \<Rightarrow> bool" where
  "scanned dir files =
     (distinct (map fst files) \<and>
      list_all (\<lambda>e. f_path (snd e) = dir @ fst e \<and> f_mtime (snd e) \<noteq> None) files)"

text \<open>A file that lacks its mirror has been put on the propagation list under its
  own relative path.\<close>

definition md_scheduled :: "snapshot \<Rightarrow> path \<times> file_info \<Rightarrow> sync_actions \<Rightarrow> bool" where
  "md_scheduled ipynb_files entry acts =
     (is_markdown_file (f_path (snd entry))
        \<and> map_of ipynb_files (swap_suffix (fst entry) ''.ipynb'') = None
      \<longrightarrow> list_ex (\<lambda>a. a_rel_path a = fst entry) (md_to_ipynb acts))"

definition ipynb_scheduled :: "snapshot \<Rightarrow> path \<times> file_info \<Rightarrow> sync_actions \<Rightarrow> bool" where
  "ipynb_scheduled md_files entry acts =
     (is_notebook_file (f_path (snd entry))
        \<and> map_of md_files (swap_suffix (fst entry) ''.md'') = None
      \<longrightarrow> list_ex (\<lambda>a. a_rel_path a = fst entry) (ipynb_to_md acts))"


section \<open>Converter (converter.py)\<close>

text \<open>
  The state that the engine and the converter work on: the file system, the set
  \<^verbatim>\<open>recently_synced\<close> of the engine, and the lines logged so far. A method that can
  raise returns the exception beside the state it leaves behind.
\<close>

record world =
  disk :: node
  recently_synced :: "path set"
  logged :: log

definition say :: "level \<Rightarrow> message \<Rightarrow> world \<Rightarrow> world" where
  "say l m w = w\<lparr>logged := logged w @ [(l, m)]\<rparr>"

text \<open>
  What the converter computes from the text of a document is not examined here and is
  taken as a parameter: the notebook text rendered from Markdown
  (\<^verbatim>\<open>parse_md_to_cells\<close> and \<^verbatim>\<open>json.dump\<close>), the decoder \<^verbatim>\<open>json.loads\<close>, whose failure is
  \<^verbatim>\<open>JSONDecodeError\<close> with its message, \<^verbatim>\<open>convert_notebook_to_md\<close>, which raises on a value
  that is not a notebook, and the text of the notice written for an undecodable
  notebook.
\<close>

record 'j converter_lib =
  render_notebook :: "string \<Rightarrow> string"
  json_loads :: "string \<Rightarrow> string + 'j"
  convert_notebook_to_md :: "'j \<Rightarrow> exn + string"
  error_note :: "path \<Rightarrow> string \<Rightarrow> string"

text \<open>\<^verbatim>\<open>str.strip()\<close> on ASCII text.\<close>

definition is_space :: "char \<Rightarrow> bool" where
  "is_space c = (c \<in> set [CHR '' '', CHR 0x09, CHR 0x0A, CHR 0x0B, CHR 0x0C, CHR 0x0D,
                            CHR 0x1C, CHR 0x1D, CHR 0x1E, CHR 0x1F])"

definition py_strip :: "string \<Rightarrow> string" where
  "py_strip s = rev (dropWhile is_space (rev (dropWhile is_space s)))"

definition ensure_dir_exists :: "real \<Rightarrow> path \<Rightarrow> world \<Rightarrow> exn option \<times> world" where
  "ensure_dir_exists now directory w =
     (if \<not> exists (disk w) directory then
        (case os_makedirs (disk w) directory now of
           Inl e \<Rightarrow> (Some e, w)
         | Inr d \<Rightarrow> (None, say INFO (DirectoryCreated directory) (w\<lparr>disk := d\<rparr>)))
      else (None, w))"

text \<open>Writing the target and then setting its two timestamps to those read from the
  source: the step that ends every branch of the converter.\<close>

definition write_with_times ::
    "real \<Rightarrow> path \<Rightarrow> string \<Rightarrow> stat_result \<Rightarrow> world \<Rightarrow> exn option \<times> world" where
  "write_with_times now p txt source_stat w =
     (case write_text (disk w) p txt now of
        Inl e \<Rightarrow> (Some e, w)
      | Inr d1 \<Rightarrow>
          (case os_utime d1 p (st_atime source_stat) (st_mtime source_stat) of
             Inl e \<Rightarrow> (Some e, w\<lparr>disk := d1\<rparr>)
           | Inr d2 \<Rightarrow> (None, w\<lparr>disk := d2\<rparr>)))"

text \<open>The \<^verbatim>\<open>try\<close> block of \<^verbatim>\<open>Converter.md_to_ipynb\<close>.\<close>

definition md_to_ipynb_try ::
    "'j converter_lib \<Rightarrow> real \<Rightarrow> path \<Rightarrow> path \<Rightarrow> world \<Rightarrow> exn option \<times> world" where
  "md_to_ipynb_try conv now md_path ipynb_path w =
     (case read_text (disk w) md_path of
        Inl e \<Rightarrow> (Some e, w)
      | Inr md_content \<Rightarrow>
          (case os_stat (disk w) md_path of
             Inl e \<Rightarrow> (Some e, w)
           | Inr source_stat \<Rightarrow>
               (case write_with_times now ipynb_path (render_notebook conv md_content)
                       source_stat w of
                  (Some e, w') \<Rightarrow> (Some e, w')
                | (None, w') \<Rightarrow> (None, say INFO (ConvertDone ipynb_path) w'))))"

text \<open>\<^verbatim>\<open>Converter.md_to_ipynb\<close>: an exception of the \<^verbatim>\<open>try\<close> block is logged and raised
  again.\<close>

definition convert_md_to_ipynb ::
    "'j converter_lib \<Rightarrow> real \<Rightarrow> path \<Rightarrow> path \<Rightarrow> world \<Rightarrow> (exn + path) \<times> world" where
  "convert_md_to_ipynb conv now md_path ipynb_path w =
     (case ensure_dir_exists now (parent ipynb_path)
             (say INFO (ConvertStart md_path ipynb_path) w) of
        (Some e, w1) \<Rightarrow> (Inl e, w1)
      | (None, w1) \<Rightarrow>
          (case md_to_ipynb_try conv now md_path ipynb_path w1 of
             (Some e, w2) \<Rightarrow> (Inl e, say ERROR (ConvertFailed md_path ipynb_path e) w2)
           | (None, w2) \<Rightarrow> (Inr ipynb_path, w2)))"

text \<open>The \<^verbatim>\<open>try\<close> block of \<^verbatim>\<open>Converter.ipynb_to_md\<close>: an empty notebook gives an empty
  Markdown file, a notebook that is not JSON gives a Markdown file that holds a notice,
  and in both cases the method returns as after a conversion.\<close>

definition ipynb_to_md_try ::
    "'j converter_lib \<Rightarrow> real \<Rightarrow> path \<Rightarrow> path \<Rightarrow> world \<Rightarrow> exn option \<times> world" where
  "ipynb_to_md_try conv now ipynb_path md_path w =
     (case os_stat (disk w) ipynb_path of
        Inl e \<Rightarrow> (Some e, w)
      | Inr source_stat \<Rightarrow>
          if st_size source_stat = 0 then
            (case write_with_times now md_path [] source_stat
                    (say WARNING (NotebookEmpty ipynb_path) w) of
               (Some e, w') \<Rightarrow> (Some e, w')
             | (None, w') \<Rightarrow> (None, say INFO (WroteEmptyMarkdown md_path) w'))
          else
            (case read_text (disk w) ipynb_path of
               Inl e \<Rightarrow> (Some e, w)
             | Inr raw \<Rightarrow>
                 if py_strip raw = [] then
                   (case write_with_times now md_path [] source_stat
                           (say WARNING (NotebookEmpty ipynb_path) w) of
                      (Some e, w') \<Rightarrow> (Some e, w')
                    | (None, w') \<Rightarrow> (None, say INFO (WroteEmptyMarkdown md_path) w'))
                 else
                   (case json_loads conv (py_strip raw) of
                      Inl msg \<Rightarrow>
                        (case write_with_times now md_path (error_note conv ipynb_path msg)
                                source_stat (say ERROR (NotebookInvalidJson ipynb_path) w) of
                           (Some e, w') \<Rightarrow> (Some e, w')
                         | (None, w') \<Rightarrow> (None, say INFO (WroteErrorMarkdown md_path) w'))
                    | Inr notebook \<Rightarrow>
                        (case convert_notebook_to_md conv notebook of
                           Inl e \<Rightarrow> (Some e, w)
                         | Inr md_content \<Rightarrow>
                             (case write_with_times now md_path md_content source_stat w of
                                (Some e, w') \<Rightarrow> (Some e, w')
                              | (None, w') \<Rightarrow> (None, say INFO (ConvertDone md_path) w'))))))"

definition convert_ipynb_to_md ::
    "'j converter_lib \<Rightarrow> real \<Rightarrow> path \<Rightarrow> path \<Rightarrow> world \<Rightarrow> (exn + path) \<times> world" where
  "convert_ipynb_to_md conv now ipynb_path md_path w =
     (case ensure_dir_exists now (parent md_path)
             (say INFO (ConvertStart ipynb_path md_path) w) of
        (Some e, w1) \<Rightarrow> (Inl e, w1)
      | (None, w1) \<Rightarrow>
          (case ipynb_to_md_try conv now ipynb_path md_path w1 of
             (Some e, w2) \<Rightarrow> (Inl e, say ERROR (ConvertFailed ipynb_path md_path e) w2)
           | (None, w2) \<Rightarrow> (Inr md_path, w2)))"

section \<open>Sync engine (sync_engine.py)\<close>

text \<open>\<^verbatim>\<open>os.path.relpath\<close>: both paths normalised, one \<^verbatim>\<open>..\<close> for every component of the
  base that the path does not share, then the rest of the path.\<close>

fun common_len :: "path \<Rightarrow> path \<Rightarrow> nat" where
  "common_len (x # xs) (y # ys) = (if x = y then Suc (common_len xs ys) else 0)"
| "common_len xs ys = 0"

definition relpath :: "path \<Rightarrow> path \<Rightarrow> path" where
  "relpath p start =
     (let a = normpath p; b = normpath start; i = common_len a b
      in replicate (length b - i) ''..'' @ drop i a)"

text \<open>\<^verbatim>\<open>PurePath.with_suffix\<close> raises \<^verbatim>\<open>ValueError\<close> on a path without a name.\<close>

definition with_suffix :: "path \<Rightarrow> string \<Rightarrow> exn + path" where
  "with_suffix p ext = (if name p = [] then Inl ValueError else Inr (swap_suffix p ext))"

text \<open>\<^verbatim>\<open>d in p.parents or d == p.parent\<close>.\<close>

definition in_tree :: "path \<Rightarrow> path \<Rightarrow> bool" where
  "in_tree d p = (length d < length p \<and> take (length d) p = d)"

text \<open>
  The Python methods of the engine return \<^verbatim>\<open>None\<close>. The model returns, beside the new
  state, which way the method ended: it converted, it returned early, it caught and
  logged an exception, or it let one escape.
\<close>

datatype outcome = Propagated | Skipped | Failed exn | Raised exn

datatype decision = Proceed | Skip message | Raise exn

text \<open>The conflict resolution at the head of \<^verbatim>\<open>sync_md_to_ipynb\<close> (\<open>own = ''md''\<close>,
  \<open>other = ''ipynb''\<close>) and of \<^verbatim>\<open>sync_ipynb_to_md\<close> (the labels exchanged): whether the
  source may overwrite a target that exists.\<close>

definition overwrite_decision ::
    "config \<Rightarrow> node \<Rightarrow> string \<Rightarrow> string \<Rightarrow> path \<Rightarrow> path \<Rightarrow> decision" where
  "overwrite_decision cfg d own other src tgt =
     (if exists d tgt then
        if conflict_resolution cfg = own then Proceed
        else if conflict_resolution cfg = other then Skip (SkipPolicyPrefersTarget tgt)
        else if conflict_resolution cfg = ''newer'' then
          (case os_stat d src of
             Inl e \<Rightarrow> Raise e
           | Inr s \<Rightarrow>
               (case os_stat d tgt of
                  Inl e \<Rightarrow> Raise e
                | Inr t \<Rightarrow>
                    if \<bar>st_mtime s - st_mtime t\<bar> < get_time_threshold cfg 3
                    then Skip (SkipTimestampsClose src tgt)
                    else if st_mtime t > st_mtime s then Skip (SkipTargetNewer tgt)
                    else Proceed))
        else Proceed
      else Proceed)"

definition sync_md_to_ipynb ::
    "'j converter_lib \<Rightarrow> config \<Rightarrow> real \<Rightarrow> path \<Rightarrow> path \<Rightarrow> world \<Rightarrow> outcome \<times> world" where
  "sync_md_to_ipynb conv cfg now md_path ipynb_path w =
     (case ensure_dir_exists now (parent ipynb_path)
             (say INFO (SyncStart md_path ipynb_path) w) of
        (Some e, w1) \<Rightarrow> (Raised e, w1)
      | (None, w1) \<Rightarrow>
          (case overwrite_decision cfg (disk w1) ''md'' ''ipynb'' md_path ipynb_path of
             Raise e \<Rightarrow> (Raised e, w1)
           | Skip m \<Rightarrow> (Skipped, say INFO m w1)
           | Proceed \<Rightarrow>
               (case convert_md_to_ipynb conv now md_path ipynb_path
                       (w1\<lparr>recently_synced := insert ipynb_path (recently_synced w1)\<rparr>) of
                  (Inl e, w2) \<Rightarrow>
                    (Failed e, say ERROR (SyncConversionFailed md_path ipynb_path e) w2)
                | (Inr p, w2) \<Rightarrow> (Propagated, say INFO (SyncDone md_path ipynb_path) w2))))"

definition sync_ipynb_to_md ::
    "'j converter_lib \<Rightarrow> config \<Rightarrow> real \<Rightarrow> path \<Rightarrow> path \<Rightarrow> world \<Rightarrow> outcome \<times> world" where
  "sync_ipynb_to_md conv cfg now ipynb_path md_path w =
     (case ensure_dir_exists now (parent md_path)
             (say INFO (SyncStart ipynb_path md_path) w) of
        (Some e, w1) \<Rightarrow> (Raised e, w1)
      | (None, w1) \<Rightarrow>
          (case overwrite_decision cfg (disk w1) ''ipynb'' ''md'' ipynb_path md_path of
             Raise e \<Rightarrow> (Raised e, w1)
           | Skip m \<Rightarrow> (Skipped, say INFO m w1)
           | Proceed \<Rightarrow>
               (case convert_ipynb_to_md conv now ipynb_path md_path
                       (w1\<lparr>recently_synced := insert md_path (recently_synced w1)\<rparr>) of
                  (Inl e, w2) \<Rightarrow>
                    (Failed e, say ERROR (SyncConversionFailed ipynb_path md_path e) w2)
                | (Inr p, w2) \<Rightarrow> (Propagated, say INFO (SyncDone ipynb_path md_path) w2))))"

text \<open>\<^verbatim>\<open>sync_file_if_needed\<close> after its two guards: the type of the file gives the
  direction; an exception that escapes the propagation is caught and logged here.\<close>

definition sync_by_type ::
    "'j converter_lib \<Rightarrow> config \<Rightarrow> real \<Rightarrow> path \<Rightarrow> world \<Rightarrow> outcome \<times> world" where
  "sync_by_type conv cfg now file_path w =
     (if \<not> (is_markdown_file file_path \<or> is_notebook_file file_path) then
        (Skipped, say DEBUG (SkipUnsupportedType file_path) w)
      else if is_markdown_file file_path then
        (if in_tree (md_dir cfg) file_path then
           (case with_suffix (relpath file_path (md_dir cfg)) ''.ipynb'' of
              Inl e \<Rightarrow> (Failed e, say ERROR (SyncFailed file_path e) w)
            | Inr rel \<Rightarrow>
                (case sync_md_to_ipynb conv cfg now file_path (ipynb_dir cfg @ rel) w of
                   (Raised e, w') \<Rightarrow> (Failed e, say ERROR (SyncFailed file_path e) w')
                 | (r, w') \<Rightarrow> (r, w')))
         else (Skipped, say DEBUG (SkipOutsideTree file_path) w))
      else
        (if in_tree (ipynb_dir cfg) file_path then
           (case with_suffix (relpath file_path (ipynb_dir cfg)) ''.md'' of
              Inl e \<Rightarrow> (Failed e, say ERROR (SyncFailed file_path e) w)
            | Inr rel \<Rightarrow>
                (case sync_ipynb_to_md conv cfg now file_path (md_dir cfg @ rel) w of
                   (Raised e, w') \<Rightarrow> (Failed e, say ERROR (SyncFailed file_path e) w')
                 | (r, w') \<Rightarrow> (r, w')))
         else (Skipped, say DEBUG (SkipOutsideTree file_path) w)))"

text \<open>\<^verbatim>\<open>sync_file_if_needed\<close>. The current time that the echo guard reads is \<open>now\<close>; the
  code stores it in a local variable and does not use it.\<close>

definition sync_file_if_needed ::
    "'j converter_lib \<Rightarrow> config \<Rightarrow> real \<Rightarrow> path \<Rightarrow> world \<Rightarrow> outcome \<times> world" where
  "sync_file_if_needed conv cfg now file_path w =
     (if \<not> exists (disk w) file_path then
        (Skipped, say DEBUG (SkipMissingFile file_path) w)
      else if file_path \<in> recently_synced w then
        (let current_time = now in
         (Skipped, say DEBUG (SkipRecentlySynced file_path)
                     (w\<lparr>recently_synced := recently_synced w - {file_path}\<rparr>)))
      else sync_by_type conv cfg now file_path w)"

text \<open>The mirror that \<^verbatim>\<open>handle_file_deletion\<close> computes for a deleted file.\<close>

definition deletion_target :: "config \<Rightarrow> path \<Rightarrow> exn + path" where
  "deletion_target cfg file_path =
     (if is_markdown_file file_path then
        (case with_suffix (relpath file_path (md_dir cfg)) ''.ipynb'' of
           Inl e \<Rightarrow> Inl e
         | Inr rel \<Rightarrow> Inr (ipynb_dir cfg @ rel))
      else
        (case with_suffix (relpath file_path (ipynb_dir cfg)) ''.md'' of
           Inl e \<Rightarrow> Inl e
         | Inr rel \<Rightarrow> Inr (md_dir cfg @ rel)))"

definition handle_file_deletion :: "config \<Rightarrow> path \<Rightarrow> world \<Rightarrow> world" where
  "handle_file_deletion cfg file_path w =
     (if \<not> (is_markdown_file file_path \<or> is_notebook_file file_path) then
        say DEBUG (SkipNotTargetType file_path) w
      else
        case deletion_target cfg file_path of
          Inl e \<Rightarrow> say ERROR (DeletionFailed file_path e) w
        | Inr target_path \<Rightarrow>
            if exists (disk w) target_path \<and> delete_orphaned cfg then
              (case os_unlink (disk w) target_path of
                 Inr d \<Rightarrow> (say INFO (DeleteTarget target_path) w)\<lparr>disk := d\<rparr>
               | Inl e \<Rightarrow>
                   if e = FileNotFoundError
                   then say WARNING (TargetAlreadyGone target_path)
                          (say INFO (DeleteTarget target_path) w)
                   else say ERROR (DeleteFailed target_path e)
                          (say INFO (DeleteTarget target_path) w))
            else say INFO (TargetRetained target_path) w)"

text \<open>A loop over a list whose body changes the state and may raise.\<close>

fun for_each_w :: "('a \<Rightarrow> 'w \<Rightarrow> exn option \<times> 'w) \<Rightarrow> 'a list \<Rightarrow> 'w \<Rightarrow> exn option \<times> 'w" where
  "for_each_w body [] w = (None, w)"
| "for_each_w body (x # xs) w =
     (case body x w of (Some e, w') \<Rightarrow> (Some e, w') | (None, w') \<Rightarrow> for_each_w body xs w')"

definition escaped :: "outcome \<times> world \<Rightarrow> exn option \<times> world" where
  "escaped r = (case fst r of Raised e \<Rightarrow> (Some e, snd r) | _ \<Rightarrow> (None, snd r))"

text \<open>\<^verbatim>\<open>Path(path).unlink(missing_ok=True)\<close> on an orphan.\<close>

definition delete_orphan :: "path \<Rightarrow> world \<Rightarrow> exn option \<times> world" where
  "delete_orphan p w =
     (case os_unlink (disk w) p of
        Inr d \<Rightarrow> (None, (say INFO (DeleteOrphan p) w)\<lparr>disk := d\<rparr>)
      | Inl e \<Rightarrow>
          if e = FileNotFoundError then (None, say INFO (DeleteOrphan p) w)
          else (Some e, say INFO (DeleteOrphan p) w))"

definition perform_initial_sync ::
    "(string \<Rightarrow> string \<Rightarrow> bool) \<Rightarrow> 'j converter_lib \<Rightarrow> config \<Rightarrow> real \<Rightarrow> world
       \<Rightarrow> exn option \<times> world" where
  "perform_initial_sync fnm conv cfg now w =
     (if \<not> sync_on_start cfg then (None, say INFO InitialSyncDisabled w)
      else
        case check_consistency fnm cfg (disk w) of
          (Inl e, lg) \<Rightarrow> (Some e, w\<lparr>logged := logged w @ lg\<rparr>)
        | (Inr plan, lg) \<Rightarrow>
            (case for_each_w
                    (\<lambda>a v. escaped (sync_md_to_ipynb conv cfg now (source a) (target a) v))
                    (md_to_ipynb plan) (w\<lparr>logged := logged w @ lg\<rparr>) of
               (Some e, w1) \<Rightarrow> (Some e, w1)
             | (None, w1) \<Rightarrow>
                 (case for_each_w
                         (\<lambda>a v. escaped (sync_ipynb_to_md conv cfg now (source a) (target a) v))
                         (ipynb_to_md plan) w1 of
                    (Some e, w2) \<Rightarrow> (Some e, w2)
                  | (None, w2) \<Rightarrow>
                      if delete_orphaned cfg then
                        (case for_each_w delete_orphan (orphaned_md plan) w2 of
                           (Some e, w3) \<Rightarrow> (Some e, w3)
                         | (None, w3) \<Rightarrow> for_each_w delete_orphan (orphaned_ipynb plan) w3)
                      else (None, w2))))"

section \<open>Debounce queue (file_watcher.py)\<close>

datatype event_type = Created | Modified | Moved | Deleted

record event_info =
  e_timestamp :: real
  e_type :: event_type
  e_path :: path

text \<open>The dictionary \<^verbatim>\<open>pending_events\<close>, keyed by the path, in insertion order.\<close>

type_synonym pending = "(path \<times> event_info) list"

definition add_pending_event ::
    "config \<Rightarrow> real \<Rightarrow> path \<Rightarrow> event_type \<Rightarrow> pending \<Rightarrow> pending" where
  "add_pending_event cfg current_time file_path event_type pending_events =
     (if \<not> (is_markdown_file file_path \<or> is_notebook_file file_path) then pending_events
      else if event_type = Deleted then
        AList.update file_path
          \<lparr>e_timestamp = current_time - debounce_delay cfg + 1 / 10,
           e_type = event_type, e_path = file_path\<rparr>
          pending_events
      else
        AList.update file_path
          \<lparr>e_timestamp = current_time, e_type = event_type, e_path = file_path\<rparr>
          pending_events)"



definition enqueue_all :: "config \<Rightarrow> (real \<times> path \<times> event_type) list \<Rightarrow> pending \<Rightarrow> pending" where
  "enqueue_all cfg evs pending_events =
     fold (\<lambda>ev. add_pending_event cfg (fst ev) (fst (snd ev)) (snd (snd ev))) evs pending_events"

section \<open>Example inputs\<close>

text \<open>The default configuration of \<^verbatim>\<open>config_manager.py\<close>, with the two trees at
  \<^verbatim>\<open>/w/md\<close> and \<^verbatim>\<open>/w/nb\<close>.\<close>

definition default_config :: config where
  "default_config =
     \<lparr>md_dir = [''w'', ''md''], ipynb_dir = [''w'', ''nb''],
      ignore_patterns = [''.*'', ''__pycache__'', ''.ipynb_checkpoints'', ''.git'',
                         ''.vscode'', ''node_modules''],
      conflict_resolution = ''newer'', time_threshold = None, delete_orphaned = True,
      debounce_delay = 8 / 10, sync_on_start = True\<rparr>"

text \<open>A matcher that knows the literal patterns and the pattern \<^verbatim>\<open>.*\<close> of the default
  configuration.\<close>

definition simple_fnmatch :: "string \<Rightarrow> string \<Rightarrow> bool" where
  "simple_fnmatch file_name pattern =
     (if pattern = ''.*'' then file_name \<noteq> [] \<and> hd file_name = CHR ''.''
      else file_name = pattern)"

text \<open>A tree that holds the single file \<^verbatim>\<open>notes.md\<close> (or \<^verbatim>\<open>notes.ipynb\<close>) with a
  given modification time, as a scan reports it.\<close>

definition example_info :: "path \<Rightarrow> path \<Rightarrow> real \<Rightarrow> file_info" where
  "example_info dir rel t =
     \<lparr>f_path = dir @ rel, f_rel_path = rel, f_mtime = Some t, f_size = 5,
      f_extension = suffix rel\<rparr>"

definition md_tree_at :: "real \<Rightarrow> snapshot" where
  "md_tree_at t = [([''notes.md''], example_info [''w'', ''md''] [''notes.md''] t)]"

definition nb_tree_at :: "real \<Rightarrow> snapshot" where
  "nb_tree_at t = [([''notes.ipynb''], example_info [''w'', ''nb''] [''notes.ipynb''] t)]"

definition dir_stat :: stat_result where
  "dir_stat = \<lparr>st_size = 4096, st_atime = 0, st_mtime = 0\<rparr>"

text \<open>A converter for the examples: a notebook is the text \<^verbatim>\<open>NB:\<close> followed by the
  Markdown text; decoding anything else fails, and the decoded text \<^verbatim>\<open>[]\<close> is not a
  notebook.\<close>

definition example_lib :: "string converter_lib" where
  "example_lib =
     \<lparr>render_notebook = (\<lambda>s. ''NB:'' @ s),
      json_loads = (\<lambda>s. if take 3 s = ''NB:'' then Inr (drop 3 s) else Inl ''Expecting value''),
      convert_notebook_to_md = (\<lambda>j. if j = ''[]'' then Inl AttributeError else Inr j),
      error_note = (\<lambda>p msg. ''# invalid notebook: '' @ msg)\<rparr>"

text \<open>A file system with the two trees \<^verbatim>\<open>/w/md\<close> and \<^verbatim>\<open>/w/nb\<close> and the given entries in
  them, and a state of the engine on it in which nothing was synchronised or logged.\<close>

definition two_trees :: "(string \<times> node) list \<Rightarrow> (string \<times> node) list \<Rightarrow> node" where
  "two_trees md_entries nb_entries =
     Dir dir_stat [(''w'', Dir dir_stat [(''md'', Dir dir_stat md_entries),
                                          (''nb'', Dir dir_stat nb_entries)])]"

definition fresh_world :: "node \<Rightarrow> world" where
  "fresh_world d = \<lparr>disk = d, recently_synced = {}, logged = []\<rparr>"

definition text_file :: "string \<Rightarrow> real \<Rightarrow> node" where
  "text_file s t = File \<lparr>content = s, atime = t, mtime = t\<rparr>"

definition notes_md :: path where
  "notes_md = [''w'', ''md'', ''notes.md'']"

definition notes_ipynb :: path where
  "notes_ipynb = [''w'', ''nb'', ''notes.ipynb'']"

text \<open>The tree \<^verbatim>\<open>/w/md\<close> holds \<^verbatim>\<open>notes.md\<close> with the text \<^verbatim>\<open>hello\<close>, last modified at
  time 5; the tree \<^verbatim>\<open>/w/nb\<close> is empty.\<close>

definition only_md :: world where
  "only_md = fresh_world (two_trees [(''notes.md'', text_file ''hello'' 5)] [])"

text \<open>The same after the file was propagated to \<^verbatim>\<open>/w/nb/notes.ipynb\<close>.\<close>

definition both_files :: node where
  "both_files = two_trees [(''notes.md'', text_file ''hello'' 5)]
                          [(''notes.ipynb'', text_file ''NB:hello'' 5)]"

definition after_propagation :: world where
  "after_propagation =
     \<lparr>disk = both_files, recently_synced = {notes_ipynb},
      logged = [(INFO, SyncStart notes_md notes_ipynb), (INFO, ConvertStart notes_md notes_ipynb),
                (INFO, ConvertDone notes_ipynb), (INFO, SyncDone notes_md notes_ipynb)]\<rparr>"

text \<open>The same after the first change event for the notebook was suppressed.\<close>

definition after_first_event :: world where
  "after_first_event =
     \<lparr>disk = both_files, recently_synced = {},
      logged = [(INFO, SyncStart notes_md notes_ipynb), (INFO, ConvertStart notes_md notes_ipynb),
                (INFO, ConvertDone notes_ipynb), (INFO, SyncDone notes_md notes_ipynb),
                (DEBUG, SkipRecentlySynced notes_ipynb)]\<rparr>"

text \<open>The notebook tree holds \<^verbatim>\<open>bad.ipynb\<close>, whose text is not JSON, or \<^verbatim>\<open>list.ipynb\<close>,
  whose text decodes to something that is not a notebook; the Markdown tree is empty.\<close>

definition bad_ipynb :: path where
  "bad_ipynb = [''w'', ''nb'', ''bad.ipynb'']"

definition bad_md :: path where
  "bad_md = [''w'', ''md'', ''bad.md'']"

definition malformed_world :: world where
  "malformed_world = fresh_world (two_trees [] [(''bad.ipynb'', text_file ''{broken'' 7)])"

definition list_ipynb :: path where
  "list_ipynb = [''w'', ''nb'', ''list.ipynb'']"

definition list_world :: world where
  "list_world = fresh_world (two_trees [] [(''list.ipynb'', text_file ''NB:[]'' 7)])"

text \<open>The Markdown file \<^verbatim>\<open>notes.md\<close> has been deleted; its notebook is still there.\<close>

definition mirror_left :: world where
  "mirror_left = fresh_world (two_trees [] [(''notes.ipynb'', text_file ''NB:hello'' 5)])"

text \<open>Both files exist, and the Markdown file is a hundred seconds newer than its
  notebook.\<close>

definition md_newer_disk :: node where
  "md_newer_disk = two_trees [(''notes.md'', text_file ''hello'' 100)]
                             [(''notes.ipynb'', text_file ''NB:old'' 0)]"

section \<open>Auxiliary facts\<close>

lemma for_each_append:
  "for_each body (xs @ ys) s =
     (case for_each body xs s of Inl e \<Rightarrow> Inl e | Inr s' \<Rightarrow> for_each body ys s')"
  by (induction xs arbitrary: s) (auto split: sum.splits)

lemma for_each_invariant:
  assumes "for_each body xs s = Inr s'" and "P s"
    and "\<And>x t t'. x \<in> set xs \<Longrightarrow> P t \<Longrightarrow> body x t = Inr t' \<Longrightarrow> P t'"
  shows "P s'"
  using assms
proof (induction xs arbitrary: s)
  case Nil
  then show ?case by simp
next
  case (Cons x xs)
  from Cons.prems(1) obtain t where t: "body x s = Inr t" "for_each body xs t = Inr s'"
    by (auto split: sum.splits)
  have Pt: "P t" using Cons.prems(3) [of x s t] Cons.prems(2) t(1) by simp
  show ?case
  proof (rule Cons.IH [OF t(2) Pt])
    fix y u u' assume "y \<in> set xs" "P u" "body y u = Inr u'"
    then show "P u'" using Cons.prems(3) [of y u u'] by simp
  qed
qed

lemma for_each_establish:
  assumes "for_each body xs s = Inr s'"
    and "\<And>x t t'. x \<in> set xs \<Longrightarrow> body x t = Inr t' \<Longrightarrow> Q x t'"
    and "\<And>x y t t'. Q x t \<Longrightarrow> body y t = Inr t' \<Longrightarrow> Q x t'"
  shows "\<forall>x \<in> set xs. Q x s'"
  using assms
proof (induction xs arbitrary: s)
  case Nil
  then show ?case by simp
next
  case (Cons x xs)
  from Cons.prems(1) obtain t where t: "body x s = Inr t" "for_each body xs t = Inr s'"
    by (auto split: sum.splits)
  have "Q x t" using Cons.prems(2) [of x s t] t(1) by simp
  then have "Q x s'"
    using for_each_invariant [OF t(2), of "Q x"] Cons.prems(3) by blast
  moreover have "\<forall>y \<in> set xs. Q y s'"
    using Cons.IH [OF t(2)] Cons.prems(2,3) by simp
  ultimately show ?case by simp
qed

lemma check_md_file_result:
  assumes "check_md_file cfg ip x acts = Inr acts'"
  shows "orphaned_md acts' = orphaned_md acts" "orphaned_ipynb acts' = orphaned_ipynb acts"
    "set (md_to_ipynb acts) \<subseteq> set (md_to_ipynb acts')"
    "set (ipynb_to_md acts) \<subseteq> set (ipynb_to_md acts')"
    "md_scheduled ip x acts'"
  using assms
  by (auto simp: check_md_file_def md_scheduled_def Let_def split: if_splits option.splits sum.splits)

lemma check_ipynb_file_result:
  assumes "check_ipynb_file cfg md x acts = Inr acts'"
  shows "orphaned_md acts' = orphaned_md acts" "orphaned_ipynb acts' = orphaned_ipynb acts"
    "md_to_ipynb acts' = md_to_ipynb acts"
    "set (ipynb_to_md acts) \<subseteq> set (ipynb_to_md acts')"
    "ipynb_scheduled md x acts'"
  using assms
  by (auto simp: check_ipynb_file_def ipynb_scheduled_def Let_def split: if_splits option.splits sum.splits)

lemma first_loop_schedules:
  assumes "for_each (check_md_file cfg ip) md acts = Inr acts'"
  shows "\<forall>x \<in> set md. md_scheduled ip x acts'"
proof (rule for_each_establish [OF assms])
  fix x t t' assume "check_md_file cfg ip x t = Inr t'"
  then show "md_scheduled ip x t'"
    by (rule check_md_file_result(5))
next
  fix x y t t' assume "md_scheduled ip x t" "check_md_file cfg ip y t = Inr t'"
  then show "md_scheduled ip x t'"
    using check_md_file_result(3) [of cfg ip y t t']
    by (auto simp: md_scheduled_def list_ex_iff)
qed

lemma first_loop_orphans:
  assumes "for_each (check_md_file cfg ip) md acts = Inr acts'"
  shows "orphaned_md acts' = orphaned_md acts \<and> orphaned_ipynb acts' = orphaned_ipynb acts"
proof (rule for_each_invariant [OF assms])
  show "orphaned_md acts = orphaned_md acts \<and> orphaned_ipynb acts = orphaned_ipynb acts" by simp
next
  fix x t t'
  assume "orphaned_md t = orphaned_md acts \<and> orphaned_ipynb t = orphaned_ipynb acts"
    and "check_md_file cfg ip x t = Inr t'"
  then show "orphaned_md t' = orphaned_md acts \<and> orphaned_ipynb t' = orphaned_ipynb acts"
    using check_md_file_result(1,2) [of cfg ip x t t'] by simp
qed

lemma second_loop_schedules:
  assumes "for_each (check_ipynb_file cfg md) ip acts = Inr acts'"
  shows "\<forall>x \<in> set ip. ipynb_scheduled md x acts'"
proof (rule for_each_establish [OF assms])
  fix x t t' assume "check_ipynb_file cfg md x t = Inr t'"
  then show "ipynb_scheduled md x t'"
    by (rule check_ipynb_file_result(5))
next
  fix x y t t' assume "ipynb_scheduled md x t" "check_ipynb_file cfg md y t = Inr t'"
  then show "ipynb_scheduled md x t'"
    using check_ipynb_file_result(4) [of cfg md y t t']
    by (auto simp: ipynb_scheduled_def list_ex_iff)
qed

lemma second_loop_keeps:
  assumes "for_each (check_ipynb_file cfg md) ip acts = Inr acts'"
  shows "orphaned_md acts' = orphaned_md acts \<and> orphaned_ipynb acts' = orphaned_ipynb acts
         \<and> md_to_ipynb acts' = md_to_ipynb acts"
proof (rule for_each_invariant [OF assms])
  show "orphaned_md acts = orphaned_md acts \<and> orphaned_ipynb acts = orphaned_ipynb acts
         \<and> md_to_ipynb acts = md_to_ipynb acts" by simp
next
  fix x t t'
  assume "orphaned_md t = orphaned_md acts \<and> orphaned_ipynb t = orphaned_ipynb acts
         \<and> md_to_ipynb t = md_to_ipynb acts"
    and "check_ipynb_file cfg md x t = Inr t'"
  then show "orphaned_md t' = orphaned_md acts \<and> orphaned_ipynb t' = orphaned_ipynb acts
         \<and> md_to_ipynb t' = md_to_ipynb acts"
    using check_ipynb_file_result(1,2,3) [of cfg md x t t'] by simp
qed

lemma mark_orphaned_md_idle:
  "\<forall>x \<in> set md. md_scheduled ip x acts \<Longrightarrow> fold (mark_orphaned_md ip) md acts = acts"
proof (induction md)
  case Nil
  then show ?case by simp
next
  case (Cons x md)
  have "mark_orphaned_md ip x acts = acts"
    using Cons.prems by (auto simp: mark_orphaned_md_def md_scheduled_def Let_def list_ex_iff)
  then show ?case using Cons by simp
qed

lemma mark_orphaned_ipynb_idle:
  "\<forall>x \<in> set ip. ipynb_scheduled md x acts \<Longrightarrow> fold (mark_orphaned_ipynb md) ip acts = acts"
proof (induction ip)
  case Nil
  then show ?case by simp
next
  case (Cons x ip)
  have "mark_orphaned_ipynb md x acts = acts"
    using Cons.prems by (auto simp: mark_orphaned_ipynb_def ipynb_scheduled_def Let_def list_ex_iff)
  then show ?case using Cons by simp
qed

lemma reconcile_no_orphans:
  assumes "reconcile cfg md ip = Inr plan"
  shows "orphaned_md plan = [] \<and> orphaned_ipynb plan = []"
proof -
  from assms obtain a1 a2 where
    a1: "for_each (check_md_file cfg ip) md no_actions = Inr a1" and
    a2: "for_each (check_ipynb_file cfg md) ip a1 = Inr a2" and
    plan: "plan = (if delete_orphaned cfg
                   then fold (mark_orphaned_ipynb md) ip (fold (mark_orphaned_md ip) md a2)
                   else a2)"
    by (auto simp: reconcile_def split: sum.splits if_splits)
  have o1: "orphaned_md a1 = [] \<and> orphaned_ipynb a1 = []"
    using first_loop_orphans [OF a1] by (simp add: no_actions_def)
  have k2: "orphaned_md a2 = [] \<and> orphaned_ipynb a2 = [] \<and> md_to_ipynb a2 = md_to_ipynb a1"
    using second_loop_keeps [OF a2] o1 by simp
  have "\<forall>x \<in> set md. md_scheduled ip x a1" by (rule first_loop_schedules [OF a1])
  then have s1: "\<forall>x \<in> set md. md_scheduled ip x a2"
    using k2 by (simp add: md_scheduled_def)
  have s2: "\<forall>x \<in> set ip. ipynb_scheduled md x a2" by (rule second_loop_schedules [OF a2])
  have "fold (mark_orphaned_ipynb md) ip (fold (mark_orphaned_md ip) md a2) = a2"
    using mark_orphaned_md_idle [OF s1] mark_orphaned_ipynb_idle [OF s2] by simp
  then show ?thesis using plan k2 by simp
qed

lemma walk_roots:
  "r \<in> fst ` set (walk ign rt n) \<Longrightarrow> take (length rt) r = rt"
  "r \<in> fst ` set (walk_dirs ign rt es) \<Longrightarrow> take (length rt) r = rt"
proof (induction ign rt n and ign rt es arbitrary: r and r rule: walk_walk_dirs.induct)
  case (1 ign rt d)
  then show ?case by simp
next
  case (2 ign rt st es)
  then show ?case by auto
next
  case (3 ign rt)
  then show ?case by simp
next
  case (4 ign rt e es)
  from "4.prems" consider
    (here) "r \<in> fst ` set (case snd e of File d \<Rightarrow> [] | Dir st es' \<Rightarrow> if ign rt (fst e) then [] else walk ign (rt @ [fst e]) (snd e))"
    | (rest) "r \<in> fst ` set (walk_dirs ign rt es)"
    by auto
  then show ?case
  proof cases
    case here
    show ?thesis
    proof (cases "snd e")
      case (File d)
      with here show ?thesis by simp
    next
      case (Dir st x)
      have ni: "\<not> ign rt (fst e)"
        using here Dir by (auto split: if_splits)
      have mem: "r \<in> fst ` set (walk ign (rt @ [fst e]) (snd e))"
        using here ni by (simp only: Dir node.case if_False)
      have "take (length (rt @ [fst e])) r = rt @ [fst e]"
        using "4.IH"(1) [OF Dir ni mem] .
      then have "take (length rt) (take (length (rt @ [fst e])) r) = take (length rt) (rt @ [fst e])"
        by simp
      then show ?thesis by (simp add: min_def)
    qed
  next
    case rest
    then show ?thesis using "4.IH"(2) by simp
  qed
qed


lemma for_each_total_inv:
  assumes "P s"
    and "\<And>x t. x \<in> set xs \<Longrightarrow> P t \<Longrightarrow> \<exists>t'. body x t = Inr t' \<and> P t'"
  shows "\<exists>s'. for_each body xs s = Inr s' \<and> P s'"
  using assms
proof (induction xs arbitrary: s)
  case Nil
  then show ?case by simp
next
  case (Cons x xs)
  from Cons.prems(2) [of x s] Cons.prems(1) obtain t where t: "body x s = Inr t" "P t"
    by auto
  have "\<exists>s'. for_each body xs t = Inr s' \<and> P s'"
  proof (rule Cons.IH [OF t(2)])
    fix y u assume "y \<in> set xs" "P u"
    then show "\<exists>t'. body y u = Inr t' \<and> P t'" using Cons.prems(2) [of y u] by simp
  qed
  then show ?case using t(1) by simp
qed

lemma list_all_update:
  "list_all P al \<Longrightarrow> P (k, v) \<Longrightarrow> list_all P (AList.update k v al)"
  by (induction al) auto

lemma scanned_update:
  assumes "scanned dir files" "f_path info = dir @ rel" "f_mtime info \<noteq> None"
  shows "scanned dir (AList.update rel info files)"
  using assms by (simp add: scanned_def distinct_update list_all_update)

lemma scan_file_scanned:
  assumes "scanned base files" "take (length base) rt = base"
  shows "\<exists>files'. scan_file fnm cfg base rt entry files = Inr files' \<and> scanned base files'"
proof -
  have "length (take (length base) rt) = length base"
    using assms(2) by simp
  then have len: "length base \<le> length rt"
    by simp
  then have pre: "take (length base) (rt @ [fst entry]) = base"
    using assms(2) by simp
  have rel: "relative_to (rt @ [fst entry]) base = Inr (drop (length base) (rt @ [fst entry]))"
    using pre by (simp add: relative_to_def)
  have whole: "base @ drop (length base) (rt @ [fst entry]) = rt @ [fst entry]"
    using pre by (metis append_take_drop_id)
  show ?thesis
  proof (cases "is_ignored fnm cfg (rt @ [fst entry])")
    case True
    then show ?thesis using assms(1) by (simp add: scan_file_def)
  next
    case False
    then show ?thesis
      using rel whole assms(1)
      by (simp add: scan_file_def Let_def scanned_update del: drop_append)
  qed
qed

lemma scan_directory_scanned:
  "\<exists>files lg. scan_directory fnm cfg fs directory None = (Inr files, lg) \<and> scanned directory files"
proof (cases "lookup fs directory")
  case None
  then show ?thesis by (simp add: scan_directory_def scanned_def)
next
  case (Some n)
  let ?ign = "\<lambda>rt d. is_ignored fnm cfg (rt @ [d])"
  have "\<exists>files. for_each (\<lambda>it. for_each (scan_file fnm cfg directory (fst it)) (snd it))
                    (walk ?ign directory n) [] = Inr files \<and> scanned directory files"
  proof (rule for_each_total_inv [where P = "scanned directory"])
    show "scanned directory []" by (simp add: scanned_def)
  next
    fix it t
    assume it: "it \<in> set (walk ?ign directory n)" and t: "scanned directory t"
    have pre: "take (length directory) (fst it) = directory"
      using walk_roots(1) [of "fst it" ?ign directory n] it by simp
    show "\<exists>t'. for_each (scan_file fnm cfg directory (fst it)) (snd it) t = Inr t' \<and> scanned directory t'"
    proof (rule for_each_total_inv [where P = "scanned directory"])
      show "scanned directory t" by (rule t)
    next
      fix x u assume "scanned directory u"
      then show "\<exists>t'. scan_file fnm cfg directory (fst it) x u = Inr t' \<and> scanned directory t'"
        using scan_file_scanned [OF _ pre] by simp
    qed
  qed
  then show ?thesis using Some by (auto simp: scan_directory_def)
qed

lemma check_md_file_total:
  assumes "scanned (md_dir cfg) md" "scanned (ipynb_dir cfg) ip" "x \<in> set md"
  shows "\<exists>t'. check_md_file cfg ip x t = Inr t'"
proof -
  from assms(1,3) obtain m where m: "f_mtime (snd x) = Some m" and p: "f_path (snd x) = md_dir cfg @ fst x"
    by (auto simp: scanned_def list_all_iff)
  have rel: "get_corresponding_path (f_path (snd x)) (md_dir cfg) (ipynb_dir cfg) ''.ipynb''
               = Inr (ipynb_dir cfg @ swap_suffix (fst x) ''.ipynb'')"
    by (simp add: p get_corresponding_path_def relative_to_def swap_suffix_def)
  show ?thesis
  proof (cases "map_of ip (swap_suffix (fst x) ''.ipynb'')")
    case None
    then show ?thesis using rel by (simp add: check_md_file_def Let_def)
  next
    case (Some b)
    then have "(swap_suffix (fst x) ''.ipynb'', b) \<in> set ip" by (rule map_of_SomeD)
    then obtain mb where "f_mtime b = Some mb"
      using assms(2) by (auto simp: scanned_def list_all_iff)
    then show ?thesis using Some m by (simp add: check_md_file_def Let_def)
  qed
qed

lemma check_ipynb_file_total:
  assumes "scanned (ipynb_dir cfg) ip" "x \<in> set ip"
  shows "\<exists>t'. check_ipynb_file cfg md x t = Inr t'"
proof -
  from assms obtain p: "f_path (snd x) = ipynb_dir cfg @ fst x"
    by (auto simp: scanned_def list_all_iff)
  have rel: "get_corresponding_path (f_path (snd x)) (ipynb_dir cfg) (md_dir cfg) ''.md''
               = Inr (md_dir cfg @ swap_suffix (fst x) ''.md'')"
    by (simp add: p get_corresponding_path_def relative_to_def swap_suffix_def)
  show ?thesis using rel by (simp add: check_ipynb_file_def Let_def)
qed

lemma reconcile_total:
  assumes "scanned (md_dir cfg) md" "scanned (ipynb_dir cfg) ip"
  shows "\<exists>plan. reconcile cfg md ip = Inr plan"
proof -
  have "\<exists>a1. for_each (check_md_file cfg ip) md no_actions = Inr a1 \<and> True"
    by (rule for_each_total_inv [where P = "\<lambda>_. True"]) (use check_md_file_total [OF assms] in auto)
  then obtain a1 where a1: "for_each (check_md_file cfg ip) md no_actions = Inr a1" by auto
  have "\<exists>a2. for_each (check_ipynb_file cfg md) ip a1 = Inr a2 \<and> True"
    by (rule for_each_total_inv [where P = "\<lambda>_. True"]) (use check_ipynb_file_total [OF assms(2)] in auto)
  then obtain a2 where a2: "for_each (check_ipynb_file cfg md) ip a1 = Inr a2" by auto
  show ?thesis using a1 a2 by (simp add: reconcile_def)
qed

lemma reconcile_passes:
  assumes "reconcile cfg md ip = Inr plan"
  shows "\<exists>a1. for_each (check_md_file cfg ip) md no_actions = Inr a1
              \<and> for_each (check_ipynb_file cfg md) ip a1 = Inr plan"
proof -
  from assms obtain a1 a2 where
    a1: "for_each (check_md_file cfg ip) md no_actions = Inr a1" and
    a2: "for_each (check_ipynb_file cfg md) ip a1 = Inr a2" and
    plan: "plan = (if delete_orphaned cfg
                   then fold (mark_orphaned_ipynb md) ip (fold (mark_orphaned_md ip) md a2)
                   else a2)"
    by (auto simp: reconcile_def split: sum.splits if_splits)
  have k2: "md_to_ipynb a2 = md_to_ipynb a1"
    using second_loop_keeps [OF a2] by simp
  have "\<forall>x \<in> set md. md_scheduled ip x a1" by (rule first_loop_schedules [OF a1])
  then have s1: "\<forall>x \<in> set md. md_scheduled ip x a2"
    using k2 by (simp add: md_scheduled_def)
  have s2: "\<forall>x \<in> set ip. ipynb_scheduled md x a2" by (rule second_loop_schedules [OF a2])
  have "fold (mark_orphaned_ipynb md) ip (fold (mark_orphaned_md ip) md a2) = a2"
    using mark_orphaned_md_idle [OF s1] mark_orphaned_ipynb_idle [OF s2] by simp
  then have "plan = a2" using plan by simp
  then show ?thesis using a1 a2 by simp
qed

lemma check_md_file_other:
  assumes "check_md_file cfg ip x t = Inr t'" "f_path (snd x) \<noteq> pa"
  shows "filter (\<lambda>a. source a = pa \<and> target a = pb) (md_to_ipynb t')
           = filter (\<lambda>a. source a = pa \<and> target a = pb) (md_to_ipynb t)"
    and "filter (\<lambda>a. source a = pb \<and> target a = pa) (ipynb_to_md t')
           = filter (\<lambda>a. source a = pb \<and> target a = pa) (ipynb_to_md t)"
  using assms
  by (auto simp: check_md_file_def Let_def split: if_splits option.splits sum.splits)

lemma first_loop_other:
  assumes "for_each (check_md_file cfg ip) xs t = Inr t'"
    and "\<forall>x \<in> set xs. f_path (snd x) \<noteq> pa"
  shows "filter (\<lambda>a. source a = pa \<and> target a = pb) (md_to_ipynb t')
           = filter (\<lambda>a. source a = pa \<and> target a = pb) (md_to_ipynb t)
         \<and> filter (\<lambda>a. source a = pb \<and> target a = pa) (ipynb_to_md t')
           = filter (\<lambda>a. source a = pb \<and> target a = pa) (ipynb_to_md t)"
proof (rule for_each_invariant [OF assms(1)])
  show "filter (\<lambda>a. source a = pa \<and> target a = pb) (md_to_ipynb t)
           = filter (\<lambda>a. source a = pa \<and> target a = pb) (md_to_ipynb t)
         \<and> filter (\<lambda>a. source a = pb \<and> target a = pa) (ipynb_to_md t)
           = filter (\<lambda>a. source a = pb \<and> target a = pa) (ipynb_to_md t)" by simp
next
  fix x u u'
  assume "x \<in> set xs"
    and "filter (\<lambda>a. source a = pa \<and> target a = pb) (md_to_ipynb u)
           = filter (\<lambda>a. source a = pa \<and> target a = pb) (md_to_ipynb t)
         \<and> filter (\<lambda>a. source a = pb \<and> target a = pa) (ipynb_to_md u)
           = filter (\<lambda>a. source a = pb \<and> target a = pa) (ipynb_to_md t)"
    and "check_md_file cfg ip x u = Inr u'"
  then show "filter (\<lambda>a. source a = pa \<and> target a = pb) (md_to_ipynb u')
           = filter (\<lambda>a. source a = pa \<and> target a = pb) (md_to_ipynb t)
         \<and> filter (\<lambda>a. source a = pb \<and> target a = pa) (ipynb_to_md u')
           = filter (\<lambda>a. source a = pb \<and> target a = pa) (ipynb_to_md t)"
    using check_md_file_other [of cfg ip x u u' pa pb] assms(2) by simp
qed

lemma check_ipynb_file_other:
  assumes "check_ipynb_file cfg md x t = Inr t'"
    and "f_path (snd x) = ipynb_dir cfg @ fst x"
    and "map_of md rel \<noteq> None"
  shows "md_to_ipynb t' = md_to_ipynb t"
    and "filter (\<lambda>a. source a = pb \<and> target a = md_dir cfg @ rel) (ipynb_to_md t')
           = filter (\<lambda>a. source a = pb \<and> target a = md_dir cfg @ rel) (ipynb_to_md t)"
  using assms
  by (auto simp: check_ipynb_file_def Let_def get_corresponding_path_def relative_to_def
        swap_suffix_def split: if_splits option.splits sum.splits)

lemma second_loop_other:
  assumes "for_each (check_ipynb_file cfg md) ip t = Inr t'"
    and "scanned (ipynb_dir cfg) ip"
    and "map_of md rel \<noteq> None"
  shows "md_to_ipynb t' = md_to_ipynb t
         \<and> filter (\<lambda>a. source a = pb \<and> target a = md_dir cfg @ rel) (ipynb_to_md t')
           = filter (\<lambda>a. source a = pb \<and> target a = md_dir cfg @ rel) (ipynb_to_md t)"
proof (rule for_each_invariant [OF assms(1)])
  show "md_to_ipynb t = md_to_ipynb t
         \<and> filter (\<lambda>a. source a = pb \<and> target a = md_dir cfg @ rel) (ipynb_to_md t)
           = filter (\<lambda>a. source a = pb \<and> target a = md_dir cfg @ rel) (ipynb_to_md t)" by simp
next
  fix x u u'
  assume x: "x \<in> set ip"
    and inv: "md_to_ipynb u = md_to_ipynb t
         \<and> filter (\<lambda>a. source a = pb \<and> target a = md_dir cfg @ rel) (ipynb_to_md u)
           = filter (\<lambda>a. source a = pb \<and> target a = md_dir cfg @ rel) (ipynb_to_md t)"
    and step: "check_ipynb_file cfg md x u = Inr u'"
  have p: "f_path (snd x) = ipynb_dir cfg @ fst x"
    using assms(2) x by (auto simp: scanned_def list_all_iff)
  show "md_to_ipynb u' = md_to_ipynb t
         \<and> filter (\<lambda>a. source a = pb \<and> target a = md_dir cfg @ rel) (ipynb_to_md u')
           = filter (\<lambda>a. source a = pb \<and> target a = md_dir cfg @ rel) (ipynb_to_md t)"
    using check_ipynb_file_other(1) [OF step p assms(3)]
      check_ipynb_file_other(2) [OF step p assms(3), of pb] inv by simp
qed

lemma scanned_split:
  assumes "scanned dir files" "map_of files rel = Some info"
  shows "\<exists>pre post. files = pre @ (rel, info) # post
            \<and> (\<forall>x \<in> set pre. f_path (snd x) \<noteq> dir @ rel)
            \<and> (\<forall>x \<in> set post. f_path (snd x) \<noteq> dir @ rel)"
proof -
  have "(rel, info) \<in> set files" using assms(2) by (rule map_of_SomeD)
  then obtain pre post where sp: "files = pre @ (rel, info) # post"
    by (auto dest: split_list)
  have d: "distinct (map fst files)" and
    a: "\<forall>x \<in> set files. f_path (snd x) = dir @ fst x"
    using assms(1) by (auto simp: scanned_def list_all_iff)
  have "\<forall>x \<in> set pre. fst x \<noteq> rel" "\<forall>x \<in> set post. fst x \<noteq> rel"
    using d sp by auto
  then have "\<forall>x \<in> set pre. f_path (snd x) \<noteq> dir @ rel"
    "\<forall>x \<in> set post. f_path (snd x) \<noteq> dir @ rel"
    using a sp by auto
  then show ?thesis using sp by blast
qed


lemma reconcile_pair:
  assumes md: "scanned (md_dir cfg) md_files" and ip: "scanned (ipynb_dir cfg) ipynb_files"
    and a: "map_of md_files rel = Some md_info" and ismd: "is_markdown_file (f_path md_info)"
    and b: "map_of ipynb_files (swap_suffix rel ''.ipynb'') = Some ipynb_info"
    and ta: "f_mtime md_info = Some ta" and tb: "f_mtime ipynb_info = Some tb"
  shows "\<exists>plan. reconcile cfg md_files ipynb_files = Inr plan
     \<and> filter (\<lambda>a. source a = f_path md_info \<and> target a = f_path ipynb_info) (md_to_ipynb plan)
         = (if get_time_threshold cfg 5 \<le> \<bar>ta - tb\<bar>
               \<and> (tb < ta \<or> conflict_resolution cfg = ''md'')
            then [\<lparr>source = f_path md_info, target = f_path ipynb_info, a_rel_path = rel,
                   time_diff = Some \<bar>ta - tb\<bar>\<rparr>]
            else [])
     \<and> filter (\<lambda>a. source a = f_path ipynb_info \<and> target a = f_path md_info) (ipynb_to_md plan)
         = (if get_time_threshold cfg 5 \<le> \<bar>ta - tb\<bar>
               \<and> \<not> (tb < ta \<or> conflict_resolution cfg = ''md'')
               \<and> (ta < tb \<or> conflict_resolution cfg = ''ipynb'')
            then [\<lparr>source = f_path ipynb_info, target = f_path md_info,
                   a_rel_path = swap_suffix rel ''.ipynb'', time_diff = Some \<bar>ta - tb\<bar>\<rparr>]
            else [])"
proof -
  let ?P = "\<lambda>a. source a = f_path md_info \<and> target a = f_path ipynb_info"
  let ?Q = "\<lambda>a. source a = f_path ipynb_info \<and> target a = f_path md_info"
  obtain plan where plan: "reconcile cfg md_files ipynb_files = Inr plan"
    using reconcile_total [OF md ip] by auto
  obtain a1 where a1: "for_each (check_md_file cfg ipynb_files) md_files no_actions = Inr a1"
    and a2: "for_each (check_ipynb_file cfg md_files) ipynb_files a1 = Inr plan"
    using reconcile_passes [OF plan] by auto
  have pa: "f_path md_info = md_dir cfg @ rel"
    using md map_of_SomeD [OF a] by (auto simp: scanned_def list_all_iff)
  obtain pre post where sp: "md_files = pre @ (rel, md_info) # post"
    and pre: "\<forall>x \<in> set pre. f_path (snd x) \<noteq> f_path md_info"
    and post: "\<forall>x \<in> set post. f_path (snd x) \<noteq> f_path md_info"
    using scanned_split [OF md a] pa by auto
  from a1 obtain u1 u2 where
    u1: "for_each (check_md_file cfg ipynb_files) pre no_actions = Inr u1" and
    u2: "check_md_file cfg ipynb_files (rel, md_info) u1 = Inr u2" and
    u3: "for_each (check_md_file cfg ipynb_files) post u2 = Inr a1"
    unfolding sp by (auto simp: for_each_append split: sum.splits)
  have f1: "filter ?P (md_to_ipynb u1) = [] \<and> filter ?Q (ipynb_to_md u1) = []"
    using first_loop_other [OF u1 pre, of "f_path ipynb_info"] by (simp add: no_actions_def)
  have f2: "filter ?P (md_to_ipynb u2)
         = (if get_time_threshold cfg 5 \<le> \<bar>ta - tb\<bar>
               \<and> (tb < ta \<or> conflict_resolution cfg = ''md'')
            then [\<lparr>source = f_path md_info, target = f_path ipynb_info, a_rel_path = rel,
                   time_diff = Some \<bar>ta - tb\<bar>\<rparr>]
            else [])
     \<and> filter ?Q (ipynb_to_md u2)
         = (if get_time_threshold cfg 5 \<le> \<bar>ta - tb\<bar>
               \<and> \<not> (tb < ta \<or> conflict_resolution cfg = ''md'')
               \<and> (ta < tb \<or> conflict_resolution cfg = ''ipynb'')
            then [\<lparr>source = f_path ipynb_info, target = f_path md_info,
                   a_rel_path = swap_suffix rel ''.ipynb'', time_diff = Some \<bar>ta - tb\<bar>\<rparr>]
            else [])"
    using u2 f1 ismd b ta tb
    by (auto simp: check_md_file_def Let_def not_less split: if_splits)
  have f3: "filter ?P (md_to_ipynb a1) = filter ?P (md_to_ipynb u2)
         \<and> filter ?Q (ipynb_to_md a1) = filter ?Q (ipynb_to_md u2)"
    using first_loop_other [OF u3 post, of "f_path ipynb_info"] .
  have "map_of md_files rel \<noteq> None" using a by simp
  then have f4: "md_to_ipynb plan = md_to_ipynb a1
         \<and> filter ?Q (ipynb_to_md plan) = filter ?Q (ipynb_to_md a1)"
    using second_loop_other [OF a2 ip, of rel "f_path ipynb_info"] pa by simp
  show ?thesis using plan f2 f3 f4 by simp
qed



lemma enqueue_all_append:
  "enqueue_all cfg (xs @ ys) q = enqueue_all cfg ys (enqueue_all cfg xs q)"
  by (simp add: enqueue_all_def)











lemma utime_at_resolve:
  "utime_at fs q a m = Inr fs' \<Longrightarrow>
     \<exists>n'. resolve fs' q = Inr n' \<and> st_atime (stat_of n') = a \<and> st_mtime (stat_of n') = m"
proof (induction fs q a m arbitrary: fs' rule: utime_at.induct)
  case (1 d a m)
  then show ?case by (auto simp: stat_of_def)
next
  case (2 st es a m)
  then show ?case by (auto simp: stat_of_def)
next
  case (3 d c cs a m)
  then show ?case by simp
next
  case (4 st es c cs a m)
  from "4.prems" obtain n n' where n: "map_of es c = Some n" "utime_at n cs a m = Inr n'"
    "fs' = Dir st (AList.update c n' es)"
    by (auto split: option.splits sum.splits)
  show ?case using "4.IH" [OF n(1,2)] n(3) by (simp add: update_conv)
qed

lemma utime_at_file:
  "utime_at fs q a m = Inr fs' \<Longrightarrow> resolve fs q = Inr (File d) \<Longrightarrow>
     resolve fs' q = Inr (File (d\<lparr>atime := a, mtime := m\<rparr>))"
proof (induction fs q a m arbitrary: fs' rule: utime_at.induct)
  case (1 d a m)
  then show ?case by auto
next
  case (2 st es a m)
  then show ?case by auto
next
  case (3 d c cs a m)
  then show ?case by simp
next
  case (4 st es c cs a m)
  from "4.prems"(1) obtain n n' where n: "map_of es c = Some n" "utime_at n cs a m = Inr n'"
    "fs' = Dir st (AList.update c n' es)"
    by (auto split: option.splits sum.splits)
  have "resolve n cs = Inr (File d)" using "4.prems"(2) n(1) by simp
  then show ?case using "4.IH" [OF n(1,2)] n(3) by (simp add: update_conv)
qed

lemma write_at_resolve:
  "write_at fs q s now = Inr fs' \<Longrightarrow>
     \<exists>d. resolve fs' q = Inr (File d) \<and> content d = s"
proof (induction fs q s now arbitrary: fs' rule: write_at.induct)
  case (1 d s now)
  then show ?case by auto
next
  case (2 st es s now)
  then show ?case by simp
next
  case (3 d c cs s now)
  then show ?case by simp
next
  case (4 st es c cs s now)
  show ?case
  proof (cases "map_of es c")
    case None
    then show ?thesis using "4.prems" by (auto split: if_splits simp: map_add_def)
  next
    case (Some n)
    from "4.prems" Some obtain n' where n: "write_at n cs s now = Inr n'"
      "fs' = Dir st (AList.update c n' es)"
      by (auto split: sum.splits)
    show ?thesis using "4.IH" [OF Some n(1)] n(2) by (simp add: update_conv)
  qed
qed

lemma write_at_frame:
  "write_at fs q s now = Inr fs' \<Longrightarrow> p \<noteq> q \<Longrightarrow> resolve fs p = Inr n \<Longrightarrow>
     \<exists>n'. resolve fs' p = Inr n' \<and> stat_of n' = stat_of n
           \<and> (\<forall>d. n = File d \<longrightarrow> n' = File d)"
proof (induction fs q s now arbitrary: fs' p n rule: write_at.induct)
  case (1 d s now)
  then show ?case by (cases p) auto
next
  case (2 st es s now)
  then show ?case by simp
next
  case (3 d c cs s now)
  then show ?case by simp
next
  case (4 st es c cs s now)
  show ?case
  proof (cases p)
    case Nil
    then have "n = Dir st es" using "4.prems"(3) by simp
    moreover have "\<exists>es'. fs' = Dir st es'"
      using "4.prems"(1) by (auto split: option.splits sum.splits if_splits)
    ultimately show ?thesis using Nil by (auto simp: stat_of_def)
  next
    case (Cons b bs)
    from "4.prems"(3) Cons obtain m where m: "map_of es b = Some m" "resolve m bs = Inr n"
      by (auto split: option.splits)
    show ?thesis
    proof (cases "map_of es c")
      case None
      then have fs': "fs' = Dir st (es @ [(c, File \<lparr>content = s, atime = now, mtime = now\<rparr>)])"
        using "4.prems"(1) by (auto split: if_splits)
      have "b \<noteq> c" using None m(1) by auto
      then show ?thesis using fs' Cons m by (simp add: map_add_def split: option.splits)
    next
      case (Some k)
      from "4.prems"(1) Some obtain k' where k: "write_at k cs s now = Inr k'"
        "fs' = Dir st (AList.update c k' es)"
        by (auto split: sum.splits)
      show ?thesis
      proof (cases "b = c")
        case True
        then have "bs \<noteq> cs" using "4.prems"(2) Cons by simp
        moreover have "resolve k bs = Inr n" using m Some True by simp
        ultimately show ?thesis
          using "4.IH" [OF Some k(1), of bs n] k(2) Cons True by (simp add: update_conv)
      next
        case False
        then show ?thesis using k(2) Cons m by (simp add: update_conv)
      qed
    qed
  qed
qed


lemma utime_at_frame:
  "utime_at fs q a m = Inr fs' \<Longrightarrow> p \<noteq> q \<Longrightarrow> resolve fs p = Inr n \<Longrightarrow>
     \<exists>n'. resolve fs' p = Inr n' \<and> stat_of n' = stat_of n
           \<and> (\<forall>d. n = File d \<longrightarrow> n' = File d)"
proof (induction fs q a m arbitrary: fs' p n rule: utime_at.induct)
  case (1 d a m)
  then show ?case by (cases p) auto
next
  case (2 st es a m)
  then show ?case by (cases p) auto
next
  case (3 d c cs a m)
  then show ?case by simp
next
  case (4 st es c cs a m)
  from "4.prems"(1) obtain k k' where k: "map_of es c = Some k" "utime_at k cs a m = Inr k'"
    "fs' = Dir st (AList.update c k' es)"
    by (auto split: option.splits sum.splits)
  show ?case
  proof (cases p)
    case Nil
    then show ?thesis using "4.prems"(3) k(3) by (auto simp: stat_of_def)
  next
    case (Cons b bs)
    from "4.prems"(3) Cons obtain m' where m: "map_of es b = Some m'" "resolve m' bs = Inr n"
      by (auto split: option.splits)
    show ?thesis
    proof (cases "b = c")
      case True
      then have "bs \<noteq> cs" using "4.prems"(2) Cons by simp
      moreover have "resolve k bs = Inr n" using m k(1) True by simp
      ultimately show ?thesis
        using "4.IH" [OF k(1,2), of bs n] k(3) Cons True by (simp add: update_conv)
    next
      case False
      then show ?thesis using k(3) Cons m by (simp add: update_conv)
    qed
  qed
qed

lemma makedirs_at_frame:
  "makedirs_at fs q now = Inr fs' \<Longrightarrow> resolve fs p = Inr n \<Longrightarrow>
     \<exists>n'. resolve fs' p = Inr n' \<and> stat_of n' = stat_of n
           \<and> (\<forall>d. n = File d \<longrightarrow> n' = File d)"
proof (induction fs q now arbitrary: fs' p n rule: makedirs_at.induct)
  case (1 d now)
  then show ?case by simp
next
  case (2 st es now)
  then show ?case by auto
next
  case (3 d c cs now)
  then show ?case by simp
next
  case (4 st es c cs now)
  show ?case
  proof (cases p)
    case Nil
    then have "n = Dir st es" using "4.prems"(2) by simp
    moreover have "\<exists>es'. fs' = Dir st es'"
      using "4.prems"(1) by (auto split: option.splits sum.splits)
    ultimately show ?thesis using Nil by (auto simp: stat_of_def)
  next
    case (Cons b bs)
    from "4.prems"(2) Cons obtain m where m: "map_of es b = Some m" "resolve m bs = Inr n"
      by (auto split: option.splits)
    show ?thesis
    proof (cases "map_of es c")
      case None
      then obtain k' where fs': "fs' = Dir st (es @ [(c, k')])"
        using "4.prems"(1) by (auto split: sum.splits)
      have "b \<noteq> c" using None m(1) by auto
      then show ?thesis using fs' Cons m by (simp add: map_add_def split: option.splits)
    next
      case (Some k)
      from "4.prems"(1) Some obtain k' where k: "makedirs_at k cs now = Inr k'"
        "fs' = Dir st (AList.update c k' es)"
        by (auto split: sum.splits)
      show ?thesis
      proof (cases "b = c")
        case True
        then have "resolve k bs = Inr n" using m Some by simp
        then show ?thesis
          using "4.IH"(2) [OF Some k(1), of bs n] k(2) Cons True by (simp add: update_conv)
      next
        case False
        then show ?thesis using k(2) Cons m by (simp add: update_conv)
      qed
    qed
  qed
qed





lemma say_simps [simp]:
  "disk (say l m w) = disk w"
  "recently_synced (say l m w) = recently_synced w"
  "logged (say l m w) = logged w @ [(l, m)]"
  by (simp_all add: say_def)

lemma utime_at_succeeds:
  "resolve fs q = Inr n \<Longrightarrow> \<exists>fs'. utime_at fs q a m = Inr fs'"
proof (induction fs q a m arbitrary: n rule: utime_at.induct)
  case (1 d a m)
  show ?case by simp
next
  case (2 st es a m)
  show ?case by simp
next
  case (3 d c cs a m)
  then show ?case by simp
next
  case (4 st es c cs a m)
  from "4.prems" obtain k where k: "map_of es c = Some k" "resolve k cs = Inr n"
    by (auto split: option.splits)
  obtain k' where "utime_at k cs a m = Inr k'" using "4.IH" [OF k] by auto
  then show ?case using k(1) by simp
qed

text \<open>What a successful write with times leaves behind.\<close>

lemma write_with_times_done:
  assumes "write_with_times now p txt st w = (None, w')"
  shows "recently_synced w' = recently_synced w" and "logged w' = logged w"
    and "\<exists>d. resolve (disk w') (normpath p) = Inr (File d) \<and> content d = txt
             \<and> atime d = st_atime st \<and> mtime d = st_mtime st"
    and "\<And>q n. q \<noteq> normpath p \<Longrightarrow> resolve (disk w) q = Inr n \<Longrightarrow>
           \<exists>n'. resolve (disk w') q = Inr n' \<and> stat_of n' = stat_of n
                 \<and> (\<forall>d. n = File d \<longrightarrow> n' = File d)"
proof -
  from assms obtain d1 d2 where
    d1: "write_at (disk w) (normpath p) txt now = Inr d1" and
    d2: "utime_at d1 (normpath p) (st_atime st) (st_mtime st) = Inr d2" and
    w': "w' = w\<lparr>disk := d2\<rparr>"
    by (auto simp: write_with_times_def write_text_def os_utime_def split: sum.splits)
  show "recently_synced w' = recently_synced w" "logged w' = logged w"
    using w' by simp_all
  obtain d where d: "resolve d1 (normpath p) = Inr (File d)" "content d = txt"
    using write_at_resolve [OF d1] by auto
  have "resolve d2 (normpath p) = Inr (File (d\<lparr>atime := st_atime st, mtime := st_mtime st\<rparr>))"
    by (rule utime_at_file [OF d2 d(1)])
  then show "\<exists>d. resolve (disk w') (normpath p) = Inr (File d) \<and> content d = txt
             \<and> atime d = st_atime st \<and> mtime d = st_mtime st"
    using w' d(2) by simp
  fix q n assume q: "q \<noteq> normpath p" "resolve (disk w) q = Inr n"
  obtain n1 where n1: "resolve d1 q = Inr n1" "stat_of n1 = stat_of n"
    "\<forall>d. n = File d \<longrightarrow> n1 = File d"
    using write_at_frame [OF d1 q] by auto
  obtain n2 where n2: "resolve d2 q = Inr n2" "stat_of n2 = stat_of n1"
    "\<forall>d. n1 = File d \<longrightarrow> n2 = File d"
    using utime_at_frame [OF d2 q(1) n1(1)] by auto
  show "\<exists>n'. resolve (disk w') q = Inr n' \<and> stat_of n' = stat_of n
                 \<and> (\<forall>d. n = File d \<longrightarrow> n' = File d)"
    using n1 n2 w' by auto
qed

lemma write_with_times_failed:
  assumes "write_with_times now p txt st w = (Some e, w')"
  shows "w' = w"
proof (cases "write_at (disk w) (normpath p) txt now")
  case (Inl x)
  then show ?thesis using assms by (simp add: write_with_times_def write_text_def)
next
  case (Inr d1)
  obtain d where "resolve d1 (normpath p) = Inr (File d)"
    using write_at_resolve [OF Inr] by auto
  then obtain d2 where "utime_at d1 (normpath p) (st_atime st) (st_mtime st) = Inr d2"
    using utime_at_succeeds by blast
  then show ?thesis using assms Inr
    by (simp add: write_with_times_def write_text_def os_utime_def)
qed

text \<open>The source and the target carry the same times after a write with the times of
  the source.\<close>

lemma write_with_times_equal:
  assumes "write_with_times now p txt st w = (None, w')" and "os_stat (disk w) q = Inr st"
  shows "\<exists>s t. os_stat (disk w') q = Inr s \<and> os_stat (disk w') p = Inr t
           \<and> st_atime t = st_atime s \<and> st_mtime t = st_mtime s
           \<and> st_atime t = st_atime st \<and> st_mtime t = st_mtime st"
proof -
  obtain d where d: "resolve (disk w') (normpath p) = Inr (File d)"
    "atime d = st_atime st" "mtime d = st_mtime st"
    using write_with_times_done(3) [OF assms(1)] by auto
  then have t: "os_stat (disk w') p = Inr (stat_of (File d))"
    by (simp add: os_stat_def)
  show ?thesis
  proof (cases "normpath q = normpath p")
    case True
    then have "os_stat (disk w') q = Inr (stat_of (File d))" using d(1) by (simp add: os_stat_def)
    then show ?thesis using t d(2,3) by (simp add: stat_of_def)
  next
    case False
    from assms(2) obtain n where n: "resolve (disk w) (normpath q) = Inr n" "stat_of n = st"
      by (auto simp: os_stat_def split: sum.splits)
    obtain n' where "resolve (disk w') (normpath q) = Inr n'" "stat_of n' = stat_of n"
      using write_with_times_done(4) [OF assms(1) False n(1)] by auto
    then have "os_stat (disk w') q = Inr st" using n(2) by (simp add: os_stat_def)
    then show ?thesis using t d(2,3) by (simp add: stat_of_def)
  qed
qed

lemma ensure_dir_exists_result:
  assumes "ensure_dir_exists now dir w = (r, w')"
  shows "recently_synced w' = recently_synced w"
    and "r \<noteq> None \<Longrightarrow> w' = w"
    and "\<And>q n. resolve (disk w) q = Inr n \<Longrightarrow>
           \<exists>n'. resolve (disk w') q = Inr n' \<and> stat_of n' = stat_of n
                 \<and> (\<forall>d. n = File d \<longrightarrow> n' = File d)"
    and "exists (disk w) dir \<Longrightarrow> r = None \<and> w' = w"
proof -
  show "recently_synced w' = recently_synced w"
    using assms by (auto simp: ensure_dir_exists_def split: if_splits sum.splits)
  show "r \<noteq> None \<Longrightarrow> w' = w"
    using assms by (auto simp: ensure_dir_exists_def split: if_splits sum.splits)
  show "exists (disk w) dir \<Longrightarrow> r = None \<and> w' = w"
    using assms by (auto simp: ensure_dir_exists_def split: if_splits sum.splits)
  fix q n assume q: "resolve (disk w) q = Inr n"
  show "\<exists>n'. resolve (disk w') q = Inr n' \<and> stat_of n' = stat_of n
                 \<and> (\<forall>d. n = File d \<longrightarrow> n' = File d)"
  proof (cases "disk w' = disk w")
    case True
    then show ?thesis using q by simp
  next
    case False
    then have "makedirs_at (disk w) (normpath dir) now = Inr (disk w')"
      using assms by (auto simp: ensure_dir_exists_def os_makedirs_def split: if_splits sum.splits)
    then show ?thesis using makedirs_at_frame q by blast
  qed
qed

lemma os_stat_frame:
  assumes "os_stat d q = Inr s"
    and "\<And>q n. resolve d q = Inr n \<Longrightarrow>
           \<exists>n'. resolve d' q = Inr n' \<and> stat_of n' = stat_of n
                 \<and> (\<forall>x. n = File x \<longrightarrow> n' = File x)"
  shows "os_stat d' q = Inr s"
proof -
  from assms(1) obtain n where n: "resolve d (normpath q) = Inr n" "stat_of n = s"
    by (auto simp: os_stat_def split: sum.splits)
  obtain n' where "resolve d' (normpath q) = Inr n'" "stat_of n' = stat_of n"
    using assms(2) [OF n(1)] by auto
  then show ?thesis using n(2) by (simp add: os_stat_def)
qed


lemma md_to_ipynb_try_done:
  assumes "md_to_ipynb_try conv now src tgt w = (None, w')"
  shows "\<exists>st tx w2. os_stat (disk w) src = Inr st
           \<and> write_with_times now tgt tx st w = (None, w2)
           \<and> disk w' = disk w2 \<and> recently_synced w' = recently_synced w2"
proof -
  from assms obtain raw st w2 where "os_stat (disk w) src = Inr st"
    "write_with_times now tgt (render_notebook conv raw) st w = (None, w2)"
    "w' = say INFO (ConvertDone tgt) w2"
    by (auto simp: md_to_ipynb_try_def split: sum.splits option.splits prod.splits)
  then show ?thesis
    by (intro exI [of _ st] exI [of _ "render_notebook conv raw"] exI [of _ w2]) simp
qed

lemma ipynb_to_md_try_done:
  assumes "ipynb_to_md_try conv now src tgt w = (None, w')"
  shows "\<exists>st tx w1 w2. os_stat (disk w) src = Inr st
           \<and> disk w1 = disk w \<and> recently_synced w1 = recently_synced w
           \<and> write_with_times now tgt tx st w1 = (None, w2)
           \<and> disk w' = disk w2 \<and> recently_synced w' = recently_synced w2"
proof -
  from assms obtain st where st: "os_stat (disk w) src = Inr st"
    by (auto simp: ipynb_to_md_try_def split: sum.splits)
  have "\<exists>tx w1 w2. disk w1 = disk w \<and> recently_synced w1 = recently_synced w
           \<and> write_with_times now tgt tx st w1 = (None, w2)
           \<and> disk w' = disk w2 \<and> recently_synced w' = recently_synced w2"
  proof (cases "st_size st = 0")
    case True
    then obtain w2 where "write_with_times now tgt [] st (say WARNING (NotebookEmpty src) w) = (None, w2)"
      "w' = say INFO (WroteEmptyMarkdown tgt) w2"
      using assms st by (auto simp: ipynb_to_md_try_def split: option.splits prod.splits)
    then show ?thesis by (intro exI [of _ "[]"] exI [of _ "say WARNING (NotebookEmpty src) w"] exI [of _ w2]) simp
  next
    case False
    then obtain raw where raw: "read_text (disk w) src = Inr raw"
      using assms st by (auto simp: ipynb_to_md_try_def split: sum.splits)
    show ?thesis
    proof (cases "py_strip raw = []")
      case True
      then obtain w2 where "write_with_times now tgt [] st (say WARNING (NotebookEmpty src) w) = (None, w2)"
        "w' = say INFO (WroteEmptyMarkdown tgt) w2"
        using assms st False raw by (auto simp: ipynb_to_md_try_def split: option.splits prod.splits)
      then show ?thesis by (intro exI [of _ "[]"] exI [of _ "say WARNING (NotebookEmpty src) w"] exI [of _ w2]) simp
    next
      case nonblank: False
      show ?thesis
      proof (cases "json_loads conv (py_strip raw)")
        case (Inl msg)
        then obtain w2 where "write_with_times now tgt (error_note conv src msg) st
                                 (say ERROR (NotebookInvalidJson src) w) = (None, w2)"
          "w' = say INFO (WroteErrorMarkdown tgt) w2"
          using assms st False raw nonblank
          by (auto simp: ipynb_to_md_try_def split: option.splits prod.splits)
        then show ?thesis
          by (intro exI [of _ "error_note conv src msg"]
                exI [of _ "say ERROR (NotebookInvalidJson src) w"] exI [of _ w2]) simp
      next
        case (Inr nb)
        then obtain tx w2 where "write_with_times now tgt tx st w = (None, w2)"
          "w' = say INFO (ConvertDone tgt) w2"
          using assms st False raw nonblank
          by (auto simp: ipynb_to_md_try_def split: option.splits prod.splits sum.splits)
        then show ?thesis
          by (intro exI [of _ tx] exI [of _ w] exI [of _ w2]) simp
      qed
    qed
  qed
  then show ?thesis using st by blast
qed

lemma converted_state:
  assumes e: "ensure_dir_exists now dir (say INFO m0 w) = (None, w1)"
    and st: "os_stat (disk w1) src = Inr st"
    and w1a: "disk w1a = disk w1" "recently_synced w1a = recently_synced w1"
    and wr: "write_with_times now tgt tx st w1a = (None, w2)"
    and w': "disk w' = disk w2" "recently_synced w' = recently_synced w2"
  shows "recently_synced w' = recently_synced w
    \<and> (\<exists>s t. os_stat (disk w') src = Inr s \<and> os_stat (disk w') tgt = Inr t
          \<and> st_atime t = st_atime s \<and> st_mtime t = st_mtime s)
    \<and> exists (disk w') tgt"
proof -
  have r: "recently_synced w1 = recently_synced w"
    using ensure_dir_exists_result(1) [OF e] by simp
  have r2: "recently_synced w2 = recently_synced w1a"
    by (rule write_with_times_done(1) [OF wr])
  have "os_stat (disk w1a) src = Inr st" using st w1a by simp
  then obtain s t where eq: "os_stat (disk w2) src = Inr s" "os_stat (disk w2) tgt = Inr t"
    "st_atime t = st_atime s" "st_mtime t = st_mtime s"
    using write_with_times_equal [OF wr] by blast
  have "exists (disk w2) tgt"
    using eq(2) by (auto simp: exists_def lookup_def os_stat_def split: sum.splits)
  then show ?thesis using r r2 eq w' w1a by simp
qed

lemma convert_md_to_ipynb_done:
  assumes "convert_md_to_ipynb conv now src tgt w = (Inr p, w')"
  shows "recently_synced w' = recently_synced w
    \<and> (\<exists>s t. os_stat (disk w') src = Inr s \<and> os_stat (disk w') tgt = Inr t
          \<and> st_atime t = st_atime s \<and> st_mtime t = st_mtime s)
    \<and> exists (disk w') tgt"
proof -
  from assms obtain w1 where
    e: "ensure_dir_exists now (parent tgt) (say INFO (ConvertStart src tgt) w) = (None, w1)" and
    t: "md_to_ipynb_try conv now src tgt w1 = (None, w')"
    by (auto simp: convert_md_to_ipynb_def split: prod.splits option.splits)
  obtain st tx w2 where st: "os_stat (disk w1) src = Inr st"
    and wr: "write_with_times now tgt tx st w1 = (None, w2)"
    and w': "disk w' = disk w2" "recently_synced w' = recently_synced w2"
    using md_to_ipynb_try_done [OF t] by blast
  show ?thesis by (rule converted_state [OF e st refl refl wr w'])
qed

lemma convert_ipynb_to_md_done:
  assumes "convert_ipynb_to_md conv now src tgt w = (Inr p, w')"
  shows "recently_synced w' = recently_synced w
    \<and> (\<exists>s t. os_stat (disk w') src = Inr s \<and> os_stat (disk w') tgt = Inr t
          \<and> st_atime t = st_atime s \<and> st_mtime t = st_mtime s)
    \<and> exists (disk w') tgt"
proof -
  from assms obtain w1 where
    e: "ensure_dir_exists now (parent tgt) (say INFO (ConvertStart src tgt) w) = (None, w1)" and
    t: "ipynb_to_md_try conv now src tgt w1 = (None, w')"
    by (auto simp: convert_ipynb_to_md_def split: prod.splits option.splits)
  obtain st tx w1a w2 where st: "os_stat (disk w1) src = Inr st"
    and w1a: "disk w1a = disk w1" "recently_synced w1a = recently_synced w1"
    and wr: "write_with_times now tgt tx st w1a = (None, w2)"
    and w': "disk w' = disk w2" "recently_synced w' = recently_synced w2"
    using ipynb_to_md_try_done [OF t] by blast
  show ?thesis by (rule converted_state [OF e st w1a wr w'])
qed

lemma sync_md_to_ipynb_propagated:
  assumes "sync_md_to_ipynb conv cfg now src tgt w = (Propagated, w')"
  shows "tgt \<in> recently_synced w'
    \<and> (\<exists>s t. os_stat (disk w') src = Inr s \<and> os_stat (disk w') tgt = Inr t
          \<and> st_atime t = st_atime s \<and> st_mtime t = st_mtime s)
    \<and> exists (disk w') tgt"
proof -
  from assms obtain w1 w2 p where
    c: "convert_md_to_ipynb conv now src tgt
          (w1\<lparr>recently_synced := insert tgt (recently_synced w1)\<rparr>) = (Inr p, w2)" and
    w': "w' = say INFO (SyncDone src tgt) w2"
    by (auto simp: sync_md_to_ipynb_def split: prod.splits option.splits decision.splits sum.splits)
  show ?thesis using convert_md_to_ipynb_done [OF c] w' by simp
qed

lemma sync_ipynb_to_md_propagated:
  assumes "sync_ipynb_to_md conv cfg now src tgt w = (Propagated, w')"
  shows "tgt \<in> recently_synced w'
    \<and> (\<exists>s t. os_stat (disk w') src = Inr s \<and> os_stat (disk w') tgt = Inr t
          \<and> st_atime t = st_atime s \<and> st_mtime t = st_mtime s)
    \<and> exists (disk w') tgt"
proof -
  from assms obtain w1 w2 p where
    c: "convert_ipynb_to_md conv now src tgt
          (w1\<lparr>recently_synced := insert tgt (recently_synced w1)\<rparr>) = (Inr p, w2)" and
    w': "w' = say INFO (SyncDone src tgt) w2"
    by (auto simp: sync_ipynb_to_md_def split: prod.splits option.splits decision.splits sum.splits)
  show ?thesis using convert_ipynb_to_md_done [OF c] w' by simp
qed

lemma guard_suppresses:
  assumes "exists (disk w) p" "p \<in> recently_synced w"
  shows "sync_file_if_needed conv cfg now p w
           = (Skipped, say DEBUG (SkipRecentlySynced p)
                         (w\<lparr>recently_synced := recently_synced w - {p}\<rparr>))"
  using assms by (simp add: sync_file_if_needed_def)










text \<open>The definitions that the evaluation of an example unfolds.\<close>

lemmas path_defs = name_def parent_def rfind_dot_def stem_def splitext_ext_def lower_char_def
  lower_def get_file_extension_def is_markdown_file_def is_notebook_file_def swap_suffix_def
  normpath_def relpath_def with_suffix_def in_tree_def

lemmas disk_defs = lookup_def exists_def os_stat_def stat_of_def read_text_def write_text_def
  os_utime_def os_unlink_def os_makedirs_def

lemmas engine_defs = say_def ensure_dir_exists_def write_with_times_def md_to_ipynb_try_def
  convert_md_to_ipynb_def ipynb_to_md_try_def convert_ipynb_to_md_def overwrite_decision_def
  sync_md_to_ipynb_def sync_ipynb_to_md_def sync_by_type_def sync_file_if_needed_def
  deletion_target_def handle_file_deletion_def get_time_threshold_def is_space_def py_strip_def

lemmas example_defs = default_config_def example_lib_def dir_stat_def two_trees_def
  fresh_world_def text_file_def notes_md_def notes_ipynb_def only_md_def both_files_def
  after_propagation_def after_first_event_def bad_ipynb_def bad_md_def malformed_world_def
  list_ipynb_def list_world_def mirror_left_def md_newer_disk_def simple_fnmatch_def

lemmas scan_defs = scan_directory_def scan_file_def is_ignored_def files_of_def relative_to_def
  suffix_def check_consistency_def reconcile_def check_md_file_def check_ipynb_file_def
  mark_orphaned_md_def mark_orphaned_ipynb_def no_actions_def get_corresponding_path_def
  perform_initial_sync_def escaped_def delete_orphan_def List.map_filter_def

section \<open>Orphans are never reported (C8)\<close>

text \<open>
  Claim C8. For every file system and every configuration, also with
  \<^verbatim>\<open>delete_orphaned\<close> set, \<^verbatim>\<open>check_consistency\<close> returns a plan, and in that plan the
  lists \<^verbatim>\<open>orphaned_md\<close> and \<^verbatim>\<open>orphaned_ipynb\<close> are empty: a file of a recognised type
  that lacks its mirror has already been put on the propagation list under the same
  relative path, so the orphan condition never holds.
\<close>

theorem check_consistency_no_orphans:
  "\<exists>plan lg. check_consistency fnm cfg fs = (Inr plan, lg)
             \<and> orphaned_md plan = [] \<and> orphaned_ipynb plan = []"
proof -
  obtain md l1 where md: "scan_directory fnm cfg fs (md_dir cfg) None = (Inr md, l1)"
      "scanned (md_dir cfg) md"
    using scan_directory_scanned [of fnm cfg fs "md_dir cfg"] by auto
  obtain ip l2 where ip: "scan_directory fnm cfg fs (ipynb_dir cfg) None = (Inr ip, l2)"
      "scanned (ipynb_dir cfg) ip"
    using scan_directory_scanned [of fnm cfg fs "ipynb_dir cfg"] by auto
  obtain plan where plan: "reconcile cfg md ip = Inr plan"
    using reconcile_total [OF md(2) ip(2)] by auto
  have "check_consistency fnm cfg fs = (Inr plan, l1 @ l2)"
    using md(1) ip(1) plan by (simp add: check_consistency_def)
  then show ?thesis using reconcile_no_orphans [OF plan] by simp
qed

section \<open>Scanning a missing directory (C9)\<close>

text \<open>
  Claim C9. For a directory that does not exist, \<^verbatim>\<open>scan_directory\<close> returns the empty
  dictionary and logs one warning that names the directory; it does not raise.
\<close>

theorem scan_directory_missing:
  assumes "\<not> exists fs directory"
  shows "scan_directory fnm cfg fs directory base
           = (Inr [], [(WARNING, DirectoryMissing directory)])"
  using assms by (simp add: scan_directory_def exists_def)

theorem scan_directory_missing_witness:
  "\<not> exists (Dir dir_stat [(''w'', Dir dir_stat [])]) [''w'', ''md'']
   \<and> scan_directory simple_fnmatch default_config (Dir dir_stat [(''w'', Dir dir_stat [])]) [''w'', ''md''] None
       = (Inr [], [(WARNING, DirectoryMissing [''w'', ''md''])])"
  using scan_directory_missing
    [of "Dir dir_stat [(''w'', Dir dir_stat [])]" "[''w'', ''md'']" simple_fnmatch default_config None]
  by (simp add: exists_def lookup_def normpath_def)


section \<open>The proximity law under the policy \<^verbatim>\<open>newer\<close> (C1)\<close>




section \<open>Forced precedence in the plan (C2)\<close>

text \<open>
  Claim C2 at the input where the code departs from it: the policy is \<^verbatim>\<open>ipynb\<close>, both
  files exist and the Markdown file is a hundred seconds newer than its notebook. The
  plan of \<^verbatim>\<open>check_consistency\<close> propagates the Markdown file to the notebook and holds no
  action from the notebook to the Markdown file: the comparison of the modification
  times is made before the policy is looked at. When \<^verbatim>\<open>perform_initial_sync\<close> then runs
  the plan, \<^verbatim>\<open>sync_md_to_ipynb\<close> finds the policy and returns early, so the initial
  synchronisation ends without an error and leaves both files as they were: the
  notebook is not propagated to the Markdown file.
\<close>

theorem force_ipynb_plan_md_newer:
  "check_consistency simple_fnmatch (default_config\<lparr>conflict_resolution := ''ipynb''\<rparr>)
       md_newer_disk
     = (Inr \<lparr>md_to_ipynb = [\<lparr>source = [''w'', ''md'', ''notes.md''],
                               target = [''w'', ''nb'', ''notes.ipynb''],
                               a_rel_path = [''notes.md''], time_diff = Some 100\<rparr>],
             ipynb_to_md = [], conflict = [], orphaned_md = [], orphaned_ipynb = []\<rparr>, [])
   \<and> fst (perform_initial_sync simple_fnmatch example_lib
             (default_config\<lparr>conflict_resolution := ''ipynb''\<rparr>) 200
             (fresh_world md_newer_disk)) = None
   \<and> disk (snd (perform_initial_sync simple_fnmatch example_lib
                   (default_config\<lparr>conflict_resolution := ''ipynb''\<rparr>) 200
                   (fresh_world md_newer_disk)))
       = md_newer_disk"
  by (simp add: scan_defs path_defs disk_defs engine_defs example_defs Let_def)

section \<open>Debounce coalescing (C4)\<close>





section \<open>Echo suppression (C3, C10)\<close>

text \<open>
  Claim C3, as the code has it. After a propagation has written the target \<open>P\<close>, the
  next change event for exactly \<open>P\<close> is suppressed, at whatever time it arrives:
  \<^verbatim>\<open>sync_file_if_needed\<close> returns without syncing, the file system is as it was, and the
  entry of \<open>P\<close> has left \<^verbatim>\<open>recently_synced\<close>. The guard covers this one event and no
  window of time.
\<close>

theorem echo_first_event_suppressed:
  assumes "sync_md_to_ipynb conv cfg now src P w = (Propagated, w1)
           \<or> sync_ipynb_to_md conv cfg now src P w = (Propagated, w1)"
  shows "sync_file_if_needed conv cfg later P w1
           = (Skipped, say DEBUG (SkipRecentlySynced P)
                         (w1\<lparr>recently_synced := recently_synced w1 - {P}\<rparr>))"
proof -
  have "exists (disk w1) P \<and> P \<in> recently_synced w1"
    using assms sync_md_to_ipynb_propagated [of conv cfg now src P w w1]
      sync_ipynb_to_md_propagated [of conv cfg now src P w w1] by blast
  then show ?thesis by (simp add: guard_suppresses)
qed

theorem echo_first_event_suppressed_witness:
  "(sync_md_to_ipynb example_lib default_config 10 notes_md notes_ipynb only_md
      = (Propagated, after_propagation)
    \<or> sync_ipynb_to_md example_lib default_config 10 notes_md notes_ipynb only_md
      = (Propagated, after_propagation))
   \<and> sync_file_if_needed example_lib default_config 100 notes_ipynb after_propagation
       = (Skipped, say DEBUG (SkipRecentlySynced notes_ipynb)
                     (after_propagation\<lparr>recently_synced := recently_synced after_propagation - {notes_ipynb}\<rparr>))"
proof -
  have h: "sync_md_to_ipynb example_lib default_config 10 notes_md notes_ipynb only_md
             = (Propagated, after_propagation)"
    by (simp add: path_defs disk_defs engine_defs example_defs)
  show ?thesis
    using echo_first_event_suppressed [OF disjI1 [OF h], of 100] h by simp
qed

text \<open>The claim as it is written suppresses every event for \<open>P\<close> that arrives within
  the window of \<^verbatim>\<open>sync_timeout = 5\<close> seconds. Under the policy \<^verbatim>\<open>ipynb\<close>: the engine
  writes the notebook at time 10, the event for the notebook at time 11 is suppressed,
  and the event for the notebook at time 12 propagates the notebook back to the
  Markdown file it was made from.\<close>

theorem echo_second_event_counterexample:
  "sync_file_if_needed example_lib (default_config\<lparr>conflict_resolution := ''ipynb''\<rparr>) 10
      notes_md only_md = (Propagated, after_propagation)
   \<and> sync_file_if_needed example_lib (default_config\<lparr>conflict_resolution := ''ipynb''\<rparr>) 11
      notes_ipynb after_propagation = (Skipped, after_first_event)
   \<and> sync_file_if_needed example_lib (default_config\<lparr>conflict_resolution := ''ipynb''\<rparr>) 12
      notes_ipynb after_first_event
       = (Propagated,
          after_first_event
            \<lparr>recently_synced := {notes_md},
             logged := logged after_first_event @
               [(INFO, SyncStart notes_ipynb notes_md), (INFO, ConvertStart notes_ipynb notes_md),
                (INFO, ConvertDone notes_md), (INFO, SyncDone notes_ipynb notes_md)]\<rparr>)"
proof -
  have s1: "sync_file_if_needed example_lib (default_config\<lparr>conflict_resolution := ''ipynb''\<rparr>) 10
      notes_md only_md = (Propagated, after_propagation)"
    by (simp add: path_defs disk_defs engine_defs example_defs)
  have s2: "sync_file_if_needed example_lib (default_config\<lparr>conflict_resolution := ''ipynb''\<rparr>) 11
      notes_ipynb after_propagation = (Skipped, after_first_event)"
    by (simp add: path_defs disk_defs engine_defs example_defs)
  have s3: "sync_file_if_needed example_lib (default_config\<lparr>conflict_resolution := ''ipynb''\<rparr>) 12
      notes_ipynb after_first_event
       = (Propagated,
          after_first_event
            \<lparr>recently_synced := {notes_md},
             logged := logged after_first_event @
               [(INFO, SyncStart notes_ipynb notes_md), (INFO, ConvertStart notes_ipynb notes_md),
                (INFO, ConvertDone notes_md), (INFO, SyncDone notes_ipynb notes_md)]\<rparr>)"
    by (simp add: path_defs disk_defs engine_defs example_defs)
  show ?thesis using s1 s2 s3 by (intro conjI)
qed




section \<open>Deletion propagation (C6)\<close>



section \<open>A notebook that cannot be converted (C7)\<close>





section \<open>Timestamps after a propagation (C5)\<close>





section \<open>Forced precedence where the code honours it\<close>

text \<open>
  Property X1. Under \<^verbatim>\<open>conflict_resolution = 'md'\<close>, a Markdown file and its notebook,
  both present in the scanned trees, whose modification times differ by the threshold
  or more: the plan holds exactly one action from the Markdown file to the notebook and
  none from the notebook to the Markdown file, whichever of the two is newer.
\<close>

theorem force_md_plan:
  assumes "scanned (md_dir cfg) md_files" and "scanned (ipynb_dir cfg) ipynb_files"
    and "conflict_resolution cfg = ''md''"
    and "map_of md_files rel = Some md_info" and "is_markdown_file (f_path md_info)"
    and "map_of ipynb_files (swap_suffix rel ''.ipynb'') = Some ipynb_info"
    and "f_mtime md_info = Some ta" and "f_mtime ipynb_info = Some tb"
    and "get_time_threshold cfg 5 \<le> \<bar>ta - tb\<bar>"
  shows "\<exists>plan. reconcile cfg md_files ipynb_files = Inr plan
     \<and> filter (\<lambda>a. source a = f_path md_info \<and> target a = f_path ipynb_info) (md_to_ipynb plan)
         = [\<lparr>source = f_path md_info, target = f_path ipynb_info, a_rel_path = rel,
              time_diff = Some \<bar>ta - tb\<bar>\<rparr>]
     \<and> filter (\<lambda>a. source a = f_path ipynb_info \<and> target a = f_path md_info) (ipynb_to_md plan)
         = []"
  using reconcile_pair [OF assms(1,2,4,5,6,7,8)] assms(3,9) by auto

text \<open>The notebook is a hundred seconds newer and the Markdown file is still propagated
  to it.\<close>

theorem force_md_plan_witness:
  "scanned (md_dir (default_config\<lparr>conflict_resolution := ''md''\<rparr>)) (md_tree_at 0)
   \<and> scanned (ipynb_dir (default_config\<lparr>conflict_resolution := ''md''\<rparr>)) (nb_tree_at 100)
   \<and> map_of (md_tree_at 0) [''notes.md''] = Some (example_info [''w'', ''md''] [''notes.md''] 0)
   \<and> is_markdown_file (f_path (example_info [''w'', ''md''] [''notes.md''] 0))
   \<and> map_of (nb_tree_at 100) (swap_suffix [''notes.md''] ''.ipynb'')
       = Some (example_info [''w'', ''nb''] [''notes.ipynb''] 100)
   \<and> get_time_threshold (default_config\<lparr>conflict_resolution := ''md''\<rparr>) 5 \<le> \<bar>0 - 100\<bar>
   \<and> (\<exists>plan. reconcile (default_config\<lparr>conflict_resolution := ''md''\<rparr>) (md_tree_at 0) (nb_tree_at 100)
                 = Inr plan
        \<and> filter (\<lambda>a. source a = [''w'', ''md'', ''notes.md'']
                     \<and> target a = [''w'', ''nb'', ''notes.ipynb'']) (md_to_ipynb plan)
            = [\<lparr>source = [''w'', ''md'', ''notes.md''], target = [''w'', ''nb'', ''notes.ipynb''],
                a_rel_path = [''notes.md''], time_diff = Some 100\<rparr>]
        \<and> filter (\<lambda>a. source a = [''w'', ''nb'', ''notes.ipynb'']
                     \<and> target a = [''w'', ''md'', ''notes.md'']) (ipynb_to_md plan) = [])"
proof -
  let ?cfg = "default_config\<lparr>conflict_resolution := ''md''\<rparr>"
  have h1: "scanned (md_dir ?cfg) (md_tree_at 0)"
    by (simp add: scanned_def default_config_def md_tree_at_def example_info_def)
  have h2: "scanned (ipynb_dir ?cfg) (nb_tree_at 100)"
    by (simp add: scanned_def default_config_def nb_tree_at_def example_info_def)
  have h3: "conflict_resolution ?cfg = ''md''"
    by simp
  have h4: "map_of (md_tree_at 0) [''notes.md'']
              = Some (example_info [''w'', ''md''] [''notes.md''] 0)"
    by (simp add: md_tree_at_def)
  have h5: "is_markdown_file (f_path (example_info [''w'', ''md''] [''notes.md''] 0))"
    by (simp add: example_info_def path_defs)
  have sw: "swap_suffix [''notes.md''] ''.ipynb'' = [''notes.ipynb'']"
    by (simp add: path_defs)
  have h6: "map_of (nb_tree_at 100) (swap_suffix [''notes.md''] ''.ipynb'')
              = Some (example_info [''w'', ''nb''] [''notes.ipynb''] 100)"
    by (simp add: sw nb_tree_at_def)
  have h7: "f_mtime (example_info [''w'', ''md''] [''notes.md''] 0) = Some 0"
    and h8: "f_mtime (example_info [''w'', ''nb''] [''notes.ipynb''] 100) = Some 100"
    by (simp_all add: example_info_def)
  have th: "get_time_threshold ?cfg 5 = 5"
    by (simp add: get_time_threshold_def default_config_def)
  have h9: "get_time_threshold ?cfg 5 \<le> \<bar>0 - 100\<bar>"
    by (simp add: th)
  show ?thesis
    using force_md_plan [OF h1 h2 h3 h4 h5 h6 h7 h8 h9] h1 h2 h4 h5 h6 h9
    by (simp add: sw example_info_def)
qed

text \<open>
  Property X2. The decision for one event. When the target exists, together with its
  directory, \<^verbatim>\<open>sync_md_to_ipynb\<close> under the policy \<^verbatim>\<open>ipynb\<close> and \<^verbatim>\<open>sync_ipynb_to_md\<close>
  under the policy \<^verbatim>\<open>md\<close> return early: nothing is converted, the file system and the
  echo guard are unchanged and two lines are logged. A propagation in the direction
  that the policy favours is never stopped by the conflict resolution.
\<close>

theorem forced_policy_per_event:
  assumes "exists (disk w) (parent tgt)" and "exists (disk w) tgt"
  shows "(conflict_resolution cfg = ''ipynb'' \<longrightarrow>
            sync_md_to_ipynb conv cfg now src tgt w
              = (Skipped, say INFO (SkipPolicyPrefersTarget tgt) (say INFO (SyncStart src tgt) w)))
       \<and> (conflict_resolution cfg = ''md'' \<longrightarrow>
            sync_ipynb_to_md conv cfg now src tgt w
              = (Skipped, say INFO (SkipPolicyPrefersTarget tgt) (say INFO (SyncStart src tgt) w)))
       \<and> (conflict_resolution cfg = ''md'' \<longrightarrow>
            overwrite_decision cfg (disk w) ''md'' ''ipynb'' src tgt = Proceed)
       \<and> (conflict_resolution cfg = ''ipynb'' \<longrightarrow>
            overwrite_decision cfg (disk w) ''ipynb'' ''md'' src tgt = Proceed)"
  using assms
  by (simp add: sync_md_to_ipynb_def sync_ipynb_to_md_def ensure_dir_exists_def
        overwrite_decision_def say_def)

text \<open>Under the policy \<^verbatim>\<open>ipynb\<close> a change of \<^verbatim>\<open>notes.md\<close> does not reach the notebook
  that exists.\<close>

theorem forced_policy_per_event_witness:
  "exists (disk (fresh_world both_files)) (parent notes_ipynb)
   \<and> exists (disk (fresh_world both_files)) notes_ipynb
   \<and> conflict_resolution (default_config\<lparr>conflict_resolution := ''ipynb''\<rparr>) = ''ipynb''
   \<and> sync_md_to_ipynb example_lib (default_config\<lparr>conflict_resolution := ''ipynb''\<rparr>) 10
        notes_md notes_ipynb (fresh_world both_files)
       = (Skipped, \<lparr>disk = both_files, recently_synced = {},
                    logged = [(INFO, SyncStart notes_md notes_ipynb),
                              (INFO, SkipPolicyPrefersTarget notes_ipynb)]\<rparr>)"
proof -
  have h1: "exists (disk (fresh_world both_files)) (parent notes_ipynb)"
    by (simp add: path_defs disk_defs example_defs)
  have h2: "exists (disk (fresh_world both_files)) notes_ipynb"
    by (simp add: path_defs disk_defs example_defs)
  show ?thesis
    using forced_policy_per_event [OF h1 h2, where cfg = "default_config\<lparr>conflict_resolution := ''ipynb''\<rparr>"
        and conv = example_lib and now = 10 and src = notes_md] h1 h2
    by (simp add: say_def fresh_world_def)
qed

end
